theory Spec2Isabelle
  imports Main
begin

section \<open>Students and their validation (main.go)\<close>

text \<open>
  Go's \<^verbatim>\<open>int\<close> is the 64-bit signed integer of the usual platforms. Its values are
  modelled as \<^typ>\<open>int\<close>, and the one arithmetic operation of the repository, the
  increment of the id counter, wraps around as Go's does: \<open>wrap64\<close> maps an integer to
  the 64-bit two's complement value it has in Go. Go strings are byte strings, here
  \<^typ>\<open>string\<close>.
\<close>

definition wrap64 :: "int \<Rightarrow> int" where
  "wrap64 x = (x + 2 ^ 63) mod 2 ^ 64 - 2 ^ 63"

record Student =
  ID :: int
  Name :: string
  Age :: int
  Email :: string

text \<open>The Go field \<^verbatim>\<open>Field\<close> is primed: \<^const>\<open>Field\<close> is a constant of relations.\<close>

record ValidationError =
  Field' :: string
  Message :: string

text \<open>
  \<^verbatim>\<open>func (s Student) Validate() []ValidationError\<close>: a value receiver, three
  independent checks, each appending to the local slice \<^verbatim>\<open>errors\<close>.
\<close>

definition Validate :: "Student \<Rightarrow> ValidationError list" where
  "Validate s =
    (let errors = [];
         errors = (if Name s = ''''
                   then errors @ [\<lparr>Field' = ''name'', Message = ''Name is required''\<rparr>]
                   else errors);
         errors = (if Age s < 0 \<or> Age s > 150
                   then errors @ [\<lparr>Field' = ''age'', Message = ''Age must be between 0 and 150''\<rparr>]
                   else errors);
         errors = (if Email s = ''''
                   then errors @ [\<lparr>Field' = ''email'', Message = ''Email is required''\<rparr>]
                   else errors)
     in errors)"

text \<open>
  The rules as the specification words them: name non-empty; age within [0,150]
  inclusive; email non-empty. \<open>spec_rule_fails s f\<close> says that the rule of field \<open>f\<close>
  is violated by \<open>s\<close>.
\<close>

definition spec_rule_fails :: "Student \<Rightarrow> string \<Rightarrow> bool" where
  "spec_rule_fails s f =
    (if f = ''name'' then Name s = ''''
     else if f = ''age'' then \<not> (0 \<le> Age s \<and> Age s \<le> 150)
     else if f = ''email'' then Email s = ''''
     else False)"

section \<open>Formatting (the part of fmt.Sprintf the repository uses)\<close>

text \<open>
  The two \<^verbatim>\<open>fmt.Sprintf\<close> calls of the repository use the verbs \<^verbatim>\<open>%s\<close> and
  \<^verbatim>\<open>%d\<close> only, on operands of dynamic type string and int. The interpreter below
  follows Go on literal text, \<^verbatim>\<open>%%\<close>, the verbs s, d and v, and on the diagnostics
  Go writes into the output for a missing operand, a surplus operand, an operand of the
  wrong type and a format that ends after the percent sign. Flags, widths and the other
  verbs are outside the modelled fragment.
\<close>

datatype arg = StringArg string | IntArg int

definition digit :: "nat \<Rightarrow> char" where
  "digit n = ''0123456789'' ! n"

fun fmtUint :: "nat \<Rightarrow> string" where
  "fmtUint n = (if n < 10 then [digit n] else fmtUint (n div 10) @ [digit (n mod 10)])"

declare fmtUint.simps [simp del]

definition FormatInt :: "int \<Rightarrow> string" where
  "FormatInt i = (if i < 0 then CHR ''-'' # fmtUint (nat (- i)) else fmtUint (nat i))"

definition typeName :: "arg \<Rightarrow> string" where
  "typeName a = (case a of StringArg _ \<Rightarrow> ''string'' | IntArg _ \<Rightarrow> ''int'')"

definition valueString :: "arg \<Rightarrow> string" where
  "valueString a = (case a of StringArg s \<Rightarrow> s | IntArg i \<Rightarrow> FormatInt i)"

definition badVerb :: "char \<Rightarrow> arg \<Rightarrow> string" where
  "badVerb verb a = ''%!'' @ [verb] @ ''('' @ typeName a @ ''='' @ valueString a @ '')''"

definition printArg :: "char \<Rightarrow> arg \<Rightarrow> string" where
  "printArg verb a =
    (case a of
       StringArg s \<Rightarrow> if verb = CHR ''s'' \<or> verb = CHR ''v'' then s else badVerb verb a
     | IntArg i \<Rightarrow> if verb = CHR ''d'' \<or> verb = CHR ''v'' then FormatInt i else badVerb verb a)"

fun extraArgs :: "arg list \<Rightarrow> string" where
  "extraArgs [] = []"
| "extraArgs [a] = typeName a @ ''='' @ valueString a"
| "extraArgs (a # b # as) = typeName a @ ''='' @ valueString a @ '', '' @ extraArgs (b # as)"

fun Sprintf :: "string \<Rightarrow> arg list \<Rightarrow> string" where
  "Sprintf [] [] = []"
| "Sprintf [] (a # as) = ''%!(EXTRA '' @ extraArgs (a # as) @ '')''"
| "Sprintf (c # fmt) args =
    (if c \<noteq> CHR ''%'' then c # Sprintf fmt args
     else (case fmt of
       [] \<Rightarrow> ''%!(NOVERB)'' @ Sprintf [] args
     | verb # rest \<Rightarrow>
         if verb = CHR ''%'' then CHR ''%'' # Sprintf rest args
         else (case args of
           [] \<Rightarrow> ''%!'' @ [verb] @ ''(MISSING)'' @ Sprintf rest []
         | a # as \<Rightarrow> printArg verb a @ Sprintf rest as)))"

section \<open>The store and the HTTP handlers (main.go)\<close>

text \<open>
  \<^verbatim>\<open>StudentStore\<close>: the map, the id counter and the database handle, which no handler
  reads. The embedded \<^verbatim>\<open>sync.RWMutex\<close> has no field here: every handler touches the
  store inside one critical section, so the store sees the handlers one after another,
  and the model runs them in that order.
\<close>

record 'db StudentStore =
  students :: "int \<rightharpoonup> Student"
  nextID :: int
  db :: 'db

definition NewStudentStore :: "'db \<Rightarrow> 'db StudentStore" where
  "NewStudentStore d = \<lparr>students = Map.empty, nextID = 1, db = d\<rparr>"

text \<open>
  What a handler leaves in its \<^verbatim>\<open>http.ResponseWriter\<close>: the status code (200 when
  the handler writes a body without calling \<^verbatim>\<open>WriteHeader\<close>) and the value it handed to
  \<^verbatim>\<open>http.Error\<close> or to the JSON encoder.
\<close>

datatype Body =
    NoBody
  | PlainText string
  | JSON_Student Student
  | JSON_Students "Student list"
  | JSON_Errors "ValidationError list"
  | JSON_Map "(string \<times> string) list"

record ResponseWriter =
  status :: nat
  body :: Body

abbreviation StatusOK :: nat where "StatusOK \<equiv> 200"
abbreviation StatusCreated :: nat where "StatusCreated \<equiv> 201"
abbreviation StatusNoContent :: nat where "StatusNoContent \<equiv> 204"
abbreviation StatusBadRequest :: nat where "StatusBadRequest \<equiv> 400"
abbreviation StatusNotFound :: nat where "StatusNotFound \<equiv> 404"

definition http_Error :: "string \<Rightarrow> nat \<Rightarrow> ResponseWriter" where
  "http_Error msg code = \<lparr>status = code, body = PlainText msg\<rparr>"

text \<open>
  The handlers take the outcome of the two library parsers as their input: the result of
  \<^verbatim>\<open>strconv.Atoi(mux.Vars(r)["id"])\<close> as an \<^typ>\<open>int option\<close> and the result of
  \<^verbatim>\<open>json.NewDecoder(r.Body).Decode(&student)\<close> as a \<^typ>\<open>Student option\<close>, \<open>None\<close> being
  the parser's error. Each handler returns the store it leaves and the response.
\<close>

definition CreateStudent ::
  "'db StudentStore \<Rightarrow> Student option \<Rightarrow> 'db StudentStore \<times> ResponseWriter" where
  "CreateStudent store decoded =
    (case decoded of
       None \<Rightarrow> (store, http_Error ''Invalid request body'' StatusBadRequest)
     | Some student \<Rightarrow>
         (let errors = Validate student in
          if length errors > 0
          then (store, \<lparr>status = StatusBadRequest, body = JSON_Errors errors\<rparr>)
          else
            (let student = student\<lparr>ID := nextID store\<rparr>;
                 store = store\<lparr>nextID := wrap64 (nextID store + 1)\<rparr>;
                 store = store\<lparr>students := (students store)(ID student \<mapsto> student)\<rparr>
             in (store, \<lparr>status = StatusCreated, body = JSON_Student student\<rparr>))))"

text \<open>
  \<^verbatim>\<open>range\<close> over a Go map visits every entry once, in an order the runtime chooses;
  \<open>order\<close> is that choice, the keys in the order visited.
\<close>

definition GetAllStudents ::
  "'db StudentStore \<Rightarrow> int list \<Rightarrow> 'db StudentStore \<times> ResponseWriter" where
  "GetAllStudents store order =
    (store, \<lparr>status = StatusOK, body = JSON_Students (List.map_filter (students store) order)\<rparr>)"

definition GetStudent ::
  "'db StudentStore \<Rightarrow> int option \<Rightarrow> 'db StudentStore \<times> ResponseWriter" where
  "GetStudent store parsed =
    (case parsed of
       None \<Rightarrow> (store, http_Error ''Invalid ID'' StatusBadRequest)
     | Some id' \<Rightarrow>
         (case students store id' of
            None \<Rightarrow> (store, http_Error ''Student not found'' StatusNotFound)
          | Some student \<Rightarrow> (store, \<lparr>status = StatusOK, body = JSON_Student student\<rparr>)))"

definition UpdateStudent ::
  "'db StudentStore \<Rightarrow> int option \<Rightarrow> Student option \<Rightarrow> 'db StudentStore \<times> ResponseWriter" where
  "UpdateStudent store parsed decoded =
    (case parsed of
       None \<Rightarrow> (store, http_Error ''Invalid ID'' StatusBadRequest)
     | Some id' \<Rightarrow>
         (case decoded of
            None \<Rightarrow> (store, http_Error ''Invalid request body'' StatusBadRequest)
          | Some student \<Rightarrow>
              (let errors = Validate student in
               if length errors > 0
               then (store, \<lparr>status = StatusBadRequest, body = JSON_Errors errors\<rparr>)
               else
                 (case students store id' of
                    None \<Rightarrow> (store, http_Error ''Student not found'' StatusNotFound)
                  | Some _ \<Rightarrow>
                      (let student = student\<lparr>ID := id'\<rparr>;
                           store = store\<lparr>students := (students store)(id' \<mapsto> student)\<rparr>
                       in (store, \<lparr>status = StatusOK, body = JSON_Student student\<rparr>))))))"

definition DeleteStudent ::
  "'db StudentStore \<Rightarrow> int option \<Rightarrow> 'db StudentStore \<times> ResponseWriter" where
  "DeleteStudent store parsed =
    (case parsed of
       None \<Rightarrow> (store, http_Error ''Invalid ID'' StatusBadRequest)
     | Some id' \<Rightarrow>
         (case students store id' of
            None \<Rightarrow> (store, http_Error ''Student not found'' StatusNotFound)
          | Some _ \<Rightarrow>
              (store\<lparr>students := (students store)(id' := None)\<rparr>,
               \<lparr>status = StatusNoContent, body = NoBody\<rparr>)))"

definition GetStudentSummary ::
  "'db StudentStore \<Rightarrow> int option \<Rightarrow> 'db StudentStore \<times> ResponseWriter" where
  "GetStudentSummary store parsed =
    (case parsed of
       None \<Rightarrow> (store, http_Error ''Invalid ID'' StatusBadRequest)
     | Some id' \<Rightarrow>
         (case students store id' of
            None \<Rightarrow> (store, http_Error ''Student not found'' StatusNotFound)
          | Some student \<Rightarrow>
              (let summary = Sprintf ''Student %s is %d years old with email %s.''
                     [StringArg (Name student), IntArg (Age student), StringArg (Email student)]
               in (store, \<lparr>status = StatusOK, body = JSON_Map [(''summary'', summary)]\<rparr>))))"

text \<open>
  The routing table of \<^verbatim>\<open>main\<close>: one request per route, carrying what the handler of
  the route reads from it.
\<close>

datatype Request =
    POST_students "Student option"
  | GET_students "int list"
  | GET_student "int option"
  | PUT_student "int option" "Student option"
  | DELETE_student "int option"
  | GET_student_summary "int option"

fun ServeHTTP :: "'db StudentStore \<Rightarrow> Request \<Rightarrow> 'db StudentStore \<times> ResponseWriter" where
  "ServeHTTP store (POST_students decoded) = CreateStudent store decoded"
| "ServeHTTP store (GET_students order) = GetAllStudents store order"
| "ServeHTTP store (GET_student parsed) = GetStudent store parsed"
| "ServeHTTP store (PUT_student parsed decoded) = UpdateStudent store parsed decoded"
| "ServeHTTP store (DELETE_student parsed) = DeleteStudent store parsed"
| "ServeHTTP store (GET_student_summary parsed) = GetStudentSummary store parsed"

text \<open>Serving a sequence of requests: the final store and the responses, in order.\<close>

fun serve :: "'db StudentStore \<Rightarrow> Request list \<Rightarrow> 'db StudentStore \<times> ResponseWriter list" where
  "serve store [] = (store, [])"
| "serve store (r # rs) =
    (case ServeHTTP store r of
       (store', w) \<Rightarrow> (case serve store' rs of (store'', ws) \<Rightarrow> (store'', w # ws)))"

text \<open>The ids that the 201 responses of a run announce, in order.\<close>

fun created_ids :: "ResponseWriter list \<Rightarrow> int list" where
  "created_ids [] = []"
| "created_ids (w # ws) =
    (case body w of
       JSON_Student s \<Rightarrow> if status w = StatusCreated then ID s # created_ids ws else created_ids ws
     | _ \<Rightarrow> created_ids ws)"

section \<open>The generation client (the Ollama client file)\<close>

record OllamaClient =
  baseURL :: string

record OllamaRequest =
  Model :: string
  Prompt :: string

record OllamaResponse =
  Response :: string

text \<open>
  The struct tags: \<^verbatim>\<open>Model\<close> is \<^verbatim>\<open>json:"model"\<close>, \<^verbatim>\<open>Prompt\<close> is \<^verbatim>\<open>json:"prompt"\<close>,
  \<^verbatim>\<open>Response\<close> is \<^verbatim>\<open>json:"response"\<close>. What \<^verbatim>\<open>encoding/json\<close> sees of a struct
  value is its JSON keys with the values of the fields; what it leaves in a struct it
  decodes into is a value for the field of each key.
\<close>

definition OllamaRequest_members :: "OllamaRequest \<Rightarrow> (string \<times> string) list" where
  "OllamaRequest_members r = [(''model'', Model r), (''prompt'', Prompt r)]"

definition OllamaResponse_keys :: "string list" where
  "OllamaResponse_keys = [''response'']"

definition OllamaResponse_of_members :: "(string \<Rightarrow> string) \<Rightarrow> OllamaResponse" where
  "OllamaResponse_of_members vals = \<lparr>Response = vals ''response''\<rparr>"

definition NewOllamaClient :: "string \<Rightarrow> OllamaClient" where
  "NewOllamaClient u = \<lparr>baseURL = u\<rparr>"

text \<open>
  The three library calls of the client, as parameters. \<^verbatim>\<open>json.Marshal\<close> takes the
  members of the request and gives the bytes or an error; \<^verbatim>\<open>http.Post\<close> takes the URL,
  the content type and the body and gives the reply's body or an error; the decoder takes
  the reply's body and the keys of the struct it decodes into, and gives the value it
  leaves in the field of each key, or an error. \<open>'e\<close> is Go's \<^verbatim>\<open>error\<close>, \<open>'b\<close> the bytes
  on the wire.
\<close>

record ('e, 'b) Net =
  json_Marshal :: "(string \<times> string) list \<Rightarrow> 'e + 'b"
  http_Post :: "string \<Rightarrow> string \<Rightarrow> 'b \<Rightarrow> 'e + 'b"
  json_Decode :: "'b \<Rightarrow> string list \<Rightarrow> 'e + (string \<Rightarrow> string)"

record 'b PostCall =
  url :: string
  contentType :: string
  payload :: 'b

text \<open>
  \<^verbatim>\<open>GenerateStudentSummary\<close> returns the HTTP calls it issued and its Go result:
  \<open>Inl err\<close> for \<^verbatim>\<open>("", err)\<close>, \<open>Inr s\<close> for \<^verbatim>\<open>(s, nil)\<close>.
\<close>

definition GenerateStudentSummary ::
  "('e, 'b) Net \<Rightarrow> OllamaClient \<Rightarrow> Student \<Rightarrow> 'b PostCall list \<times> ('e + string)" where
  "GenerateStudentSummary net c student =
    (let prompt = Sprintf
           ''Generate a brief summary of this student:\<newline>Name: %s\<newline>Age: %d\<newline>Email: %s''
           [StringArg (Name student), IntArg (Age student), StringArg (Email student)];
         reqBody = \<lparr>Model = ''llama2'', Prompt = prompt\<rparr>
     in case json_Marshal net (OllamaRequest_members reqBody) of
          Inl err \<Rightarrow> ([], Inl err)
        | Inr jsonBody \<Rightarrow>
            (let call = \<lparr>url = baseURL c @ ''/api/generate'',
                         contentType = ''application/json'',
                         payload = jsonBody\<rparr>
             in case http_Post net (url call) (contentType call) (payload call) of
                  Inl err \<Rightarrow> ([call], Inl err)
                | Inr resp \<Rightarrow>
                    (case json_Decode net resp OllamaResponse_keys of
                       Inl err \<Rightarrow> ([call], Inl err)
                     | Inr vals \<Rightarrow>
                         (let ollamaResp = OllamaResponse_of_members vals
                          in ([call], Inr (Response ollamaResp))))))"

section \<open>The specification's side: decimal numerals and the quoted prompt\<close>

text \<open>
  The specification writes \<open>{age}\<close> for the age in a text: its decimal numeral.
  \<open>spec_is_decimal a n\<close> says that the string \<open>a\<close> is the decimal numeral of \<open>n\<close>: digits
  whose value is the magnitude of \<open>n\<close>, no leading zero (the numeral of 0 is "0"), and a
  minus sign in front exactly when \<open>n\<close> is negative.
\<close>

definition spec_digit_value :: "char \<Rightarrow> nat option" where
  "spec_digit_value =
    map_of [(CHR ''0'', 0), (CHR ''1'', 1), (CHR ''2'', 2), (CHR ''3'', 3), (CHR ''4'', 4),
            (CHR ''5'', 5), (CHR ''6'', 6), (CHR ''7'', 7), (CHR ''8'', 8), (CHR ''9'', 9)]"

definition spec_decimal_value :: "string \<Rightarrow> nat option" where
  "spec_decimal_value ds =
    foldl (\<lambda>v c. case v of
                   None \<Rightarrow> None
                 | Some n \<Rightarrow> (case spec_digit_value c of
                                None \<Rightarrow> None
                              | Some d \<Rightarrow> Some (10 * n + d)))
          (Some 0) ds"

definition spec_unsigned :: "string \<Rightarrow> nat \<Rightarrow> bool" where
  "spec_unsigned ds v =
    (ds \<noteq> [] \<and> (length ds = 1 \<or> hd ds \<noteq> CHR ''0'') \<and> spec_decimal_value ds = Some v)"

definition spec_is_decimal :: "string \<Rightarrow> int \<Rightarrow> bool" where
  "spec_is_decimal a n =
    (case a of
       [] \<Rightarrow> False
     | c # cs \<Rightarrow>
         if c = CHR ''-'' then n < 0 \<and> spec_unsigned cs (nat (- n))
         else 0 \<le> n \<and> spec_unsigned a (nat n))"

text \<open>
  The prompt as the specification words it:
  "Generate a brief summary of this student: Name: {name}, Age: {age}, Email: {email}",
  for the age numeral \<open>a\<close>.
\<close>

definition spec_prompt :: "Student \<Rightarrow> string \<Rightarrow> string" where
  "spec_prompt s a =
    ''Generate a brief summary of this student: Name: '' @ Name s @
    '', Age: '' @ a @ '', Email: '' @ Email s"

section \<open>Unfolding the handlers on concrete inputs\<close>

lemmas handler_defs =
  NewStudentStore_def CreateStudent_def GetAllStudents_def GetStudent_def UpdateStudent_def
  DeleteStudent_def GetStudentSummary_def Validate_def http_Error_def Let_def wrap64_def
  created_ids.simps

lemmas format_defs = printArg_def FormatInt_def fmtUint.simps digit_def

section \<open>Validation reports the violated rules\<close>

text \<open>
  C1. For every student, \<open>Validate\<close> returns exactly one error for each rule the student
  violates, in the order name, age, email (the rules being: name non-empty, age within
  0 and 150 inclusive, email non-empty), and it returns the empty list if and only if
  all three rules pass. The result is a function of the student alone.
\<close>

theorem Validate_reports_violated_rules:
  "map Field' (Validate s) = filter (spec_rule_fails s) [''name'', ''age'', ''email'']
   \<and> (Validate s = [] \<longleftrightarrow> Name s \<noteq> '''' \<and> 0 \<le> Age s \<and> Age s \<le> 150 \<and> Email s \<noteq> '''')"
  by (auto simp: Validate_def spec_rule_fails_def)

theorem Validate_reports_violated_rules_witness:
  "map Field' (Validate \<lparr>ID = 0, Name = '''', Age = 151, Email = ''e@f''\<rparr>) = [''name'', ''age'']
   \<and> Validate \<lparr>ID = 0, Name = ''Ann'', Age = 150, Email = ''a@b.com''\<rparr> = []"
  using Validate_reports_violated_rules [of "\<lparr>ID = 0, Name = '''', Age = 151, Email = ''e@f''\<rparr>"]
    Validate_reports_violated_rules [of "\<lparr>ID = 0, Name = ''Ann'', Age = 150, Email = ''a@b.com''\<rparr>"]
  by (simp add: spec_rule_fails_def)

section \<open>The decimal rendering of integers\<close>

lemma below_ten: "k < 10 \<Longrightarrow> k \<in> {0, 1, 2, 3, 4, 5, 6, 7, 8, 9::nat}"
  by auto

lemma spec_digit_value_digit: "k < 10 \<Longrightarrow> spec_digit_value (digit k) = Some k"
  by (drule below_ten) (auto simp: spec_digit_value_def digit_def)

lemma digit_not_zero: "0 < k \<Longrightarrow> k < 10 \<Longrightarrow> digit k \<noteq> CHR ''0''"
  by (drule below_ten) (auto simp: digit_def)

lemma digit_not_minus: "k < 10 \<Longrightarrow> digit k \<noteq> CHR ''-''"
  by (drule below_ten) (auto simp: digit_def)

lemma spec_decimal_value_snoc:
  "spec_decimal_value (ds @ [c]) =
    (case spec_decimal_value ds of
       None \<Rightarrow> None
     | Some n \<Rightarrow> (case spec_digit_value c of None \<Rightarrow> None | Some d \<Rightarrow> Some (10 * n + d)))"
  by (simp add: spec_decimal_value_def)

lemma fmtUint_not_Nil: "fmtUint n \<noteq> []"
  by (subst fmtUint.simps) simp

lemma spec_decimal_value_fmtUint: "spec_decimal_value (fmtUint n) = Some n"
proof (induction n rule: fmtUint.induct)
  case (1 n)
  show ?case
  proof (cases "n < 10")
    case True
    then have "fmtUint n = [digit n]" by (subst fmtUint.simps) simp
    with True show ?thesis
      by (simp add: spec_decimal_value_def spec_digit_value_digit)
  next
    case False
    then have unfold: "fmtUint n = fmtUint (n div 10) @ [digit (n mod 10)]"
      by (subst fmtUint.simps) simp
    from False "1.IH" have "spec_decimal_value (fmtUint (n div 10)) = Some (n div 10)" by simp
    then show ?thesis
      by (simp add: unfold spec_decimal_value_snoc spec_digit_value_digit)
  qed
qed

lemma hd_fmtUint: "hd (fmtUint n) \<noteq> CHR ''-'' \<and> (0 < n \<longrightarrow> hd (fmtUint n) \<noteq> CHR ''0'')"
proof (induction n rule: fmtUint.induct)
  case (1 n)
  show ?case
  proof (cases "n < 10")
    case True
    then have "fmtUint n = [digit n]" by (subst fmtUint.simps) simp
    with True show ?thesis by (simp add: digit_not_zero digit_not_minus)
  next
    case False
    then have "fmtUint n = fmtUint (n div 10) @ [digit (n mod 10)]"
      by (subst fmtUint.simps) simp
    then have "hd (fmtUint n) = hd (fmtUint (n div 10))"
      by (simp add: fmtUint_not_Nil)
    moreover from False have "0 < n div 10" by simp
    ultimately show ?thesis using False "1.IH" by simp
  qed
qed

lemma spec_unsigned_fmtUint: "spec_unsigned (fmtUint n) n"
proof -
  have "length (fmtUint n) = 1 \<or> hd (fmtUint n) \<noteq> CHR ''0''"
  proof (cases "n = 0")
    case True
    then have "fmtUint n = [digit 0]" by (subst fmtUint.simps) simp
    then show ?thesis by simp
  next
    case False
    with hd_fmtUint [of n] show ?thesis by simp
  qed
  then show ?thesis
    by (simp add: spec_unsigned_def fmtUint_not_Nil spec_decimal_value_fmtUint)
qed

lemma FormatInt_is_decimal: "spec_is_decimal (FormatInt i) i"
proof (cases "i < 0")
  case True
  then show ?thesis
    by (simp add: spec_is_decimal_def FormatInt_def spec_unsigned_fmtUint)
next
  case False
  obtain c cs where shape: "fmtUint (nat i) = c # cs"
    using fmtUint_not_Nil [of "nat i"] by (cases "fmtUint (nat i)") auto
  with hd_fmtUint [of "nat i"] have "c \<noteq> CHR ''-''" by simp
  with False shape spec_unsigned_fmtUint [of "nat i"] show ?thesis
    by (simp add: spec_is_decimal_def FormatInt_def)
qed


lemma spec_digit_value_Some: "spec_digit_value c = Some d \<Longrightarrow> d < 10 \<and> digit d = c"
  by (auto simp: spec_digit_value_def digit_def split: if_splits)

lemma spec_decimal_value_positive:
  "spec_decimal_value ds = Some v \<Longrightarrow> ds \<noteq> [] \<Longrightarrow> hd ds \<noteq> CHR ''0'' \<Longrightarrow> 0 < v"
proof (induction ds arbitrary: v rule: rev_induct)
  case Nil
  then show ?case by simp
next
  case (snoc c xs)
  from snoc.prems(1) obtain n d where n: "spec_decimal_value xs = Some n"
    and d: "spec_digit_value c = Some d" and v: "v = 10 * n + d"
    by (auto simp: spec_decimal_value_snoc split: option.splits)
  show ?case
  proof (cases "xs = []")
    case True
    with snoc.prems(3) have "c \<noteq> CHR ''0''" by simp
    with d have "d \<noteq> 0" by (auto simp: spec_digit_value_def split: if_splits)
    with v show ?thesis by simp
  next
    case False
    with snoc.prems(3) have "hd xs \<noteq> CHR ''0''" by simp
    from snoc.IH [OF n False this] v show ?thesis by simp
  qed
qed

lemma spec_unsigned_unique: "spec_unsigned ds v \<Longrightarrow> ds = fmtUint v"
proof (induction ds arbitrary: v rule: rev_induct)
  case Nil
  then show ?case by (simp add: spec_unsigned_def)
next
  case (snoc c xs)
  from snoc.prems obtain n d where n: "spec_decimal_value xs = Some n"
    and d: "spec_digit_value c = Some d" and v: "v = 10 * n + d"
    by (auto simp: spec_unsigned_def spec_decimal_value_snoc split: option.splits)
  from spec_digit_value_Some [OF d] have small: "d < 10" and c: "digit d = c" by simp_all
  show ?case
  proof (cases "xs = []")
    case True
    with n have "n = 0" by (simp add: spec_decimal_value_def)
    with v small have "fmtUint v = [digit d]" by (subst fmtUint.simps) simp
    with True c show ?thesis by simp
  next
    case False
    with snoc.prems have lead: "hd xs \<noteq> CHR ''0''" by (auto simp: spec_unsigned_def)
    with False n have "spec_unsigned xs n" by (simp add: spec_unsigned_def)
    then have xs: "xs = fmtUint n" by (rule snoc.IH)
    from spec_decimal_value_positive [OF n False lead] have "0 < n" .
    with v small have "\<not> v < 10" and "v div 10 = n" and "v mod 10 = d" by simp_all
    then have "fmtUint v = fmtUint n @ [digit d]" by (subst fmtUint.simps) simp
    with xs c show ?thesis by simp
  qed
qed

lemma spec_is_decimal_iff: "spec_is_decimal a n \<longleftrightarrow> a = FormatInt n"
proof
  assume dec: "spec_is_decimal a n"
  show "a = FormatInt n"
  proof (cases a)
    case Nil
    with dec show ?thesis by (simp add: spec_is_decimal_def)
  next
    case (Cons c cs)
    show ?thesis
    proof (cases "c = CHR ''-''")
      case True
      with dec Cons have "n < 0" and "spec_unsigned cs (nat (- n))"
        by (simp_all add: spec_is_decimal_def)
      with spec_unsigned_unique [of cs "nat (- n)"] Cons True show ?thesis
        by (simp add: FormatInt_def)
    next
      case False
      with dec Cons have "0 \<le> n" and "spec_unsigned a (nat n)"
        by (simp_all add: spec_is_decimal_def)
      with spec_unsigned_unique [of a "nat n"] show ?thesis
        by (simp add: FormatInt_def)
    qed
  qed
next
  assume "a = FormatInt n"
  then show "spec_is_decimal a n" by (simp add: FormatInt_is_decimal)
qed

section \<open>The counter\<close>

lemma wrap64_in_range: "- (2 ^ 63) \<le> a \<Longrightarrow> a < 2 ^ 63 \<Longrightarrow> wrap64 a = a"
  by (simp add: wrap64_def)

lemma wrap64_add_left: "wrap64 (wrap64 a + b) = wrap64 (a + b)"
proof -
  have "wrap64 a + b + 2 ^ 63 = (a + 2 ^ 63) mod 2 ^ 64 + b"
    by (simp add: wrap64_def)
  then have "(wrap64 a + b + 2 ^ 63) mod 2 ^ 64 = ((a + 2 ^ 63) mod 2 ^ 64 + b) mod 2 ^ 64"
    by (simp only:)
  also have "\<dots> = (a + 2 ^ 63 + b) mod 2 ^ 64"
    by (rule mod_add_left_eq)
  also have "a + 2 ^ 63 + b = a + b + 2 ^ 63"
    by (simp only: add.assoc add.commute [of "2 ^ 63" b])
  finally have "(wrap64 a + b + 2 ^ 63) mod 2 ^ 64 = (a + b + 2 ^ 63) mod 2 ^ 64" .
  then show ?thesis
    by (simp only: wrap64_def [of "wrap64 a + b"] wrap64_def [of "a + b"])
qed


lemma wrap64_idem: "wrap64 (wrap64 a) = wrap64 a"
  using wrap64_add_left [of a 0] by simp

lemma wrap64_eq_near:
  assumes "wrap64 a = wrap64 b" and "\<bar>a - b\<bar> < 2 ^ 64"
  shows "a = b"
proof -
  from assms(1) have "(a + 2 ^ 63) mod 2 ^ 64 = (b + 2 ^ 63) mod 2 ^ 64"
    by (simp add: wrap64_def)
  then have "(2 ^ 64 :: int) dvd (a + 2 ^ 63) - (b + 2 ^ 63)"
    by (simp only: mod_eq_dvd_iff)
  then have "(2 ^ 64 :: int) dvd a - b" by simp
  then obtain q where q: "a - b = 2 ^ 64 * q" by (auto simp: dvd_def)
  with assms(2) have "\<bar>q\<bar> < 1" by (simp add: abs_mult)
  then have "q = 0" by simp
  with q show ?thesis by simp
qed

section \<open>Facts about single handlers and about runs\<close>

lemma Validate_update_ID: "Validate (s\<lparr>ID := i\<rparr>) = Validate s"
  by (simp add: Validate_def)

lemma CreateStudent_created:
  assumes "CreateStudent st decoded = (st', w)" and "status w = StatusCreated"
  shows "\<exists>s. decoded = Some s \<and> Validate s = [] \<and>
             w = \<lparr>status = StatusCreated, body = JSON_Student (s\<lparr>ID := nextID st\<rparr>)\<rparr> \<and>
             st' = st\<lparr>nextID := wrap64 (nextID st + 1),
                      students := (students st)(nextID st \<mapsto> s\<lparr>ID := nextID st\<rparr>)\<rparr>"
  using assms
  by (auto simp: CreateStudent_def http_Error_def Let_def split: option.splits if_splits)

lemma CreateStudent_not_created:
  assumes "CreateStudent st decoded = (st', w)" and "status w \<noteq> StatusCreated"
  shows "st' = st"
  using assms
  by (auto simp: CreateStudent_def http_Error_def Let_def split: option.splits if_splits)

lemma CreateStudent_valid:
  assumes "Validate s = []"
  shows "CreateStudent st (Some s) =
    (st\<lparr>nextID := wrap64 (nextID st + 1),
        students := (students st)(nextID st \<mapsto> s\<lparr>ID := nextID st\<rparr>)\<rparr>,
     \<lparr>status = StatusCreated, body = JSON_Student (s\<lparr>ID := nextID st\<rparr>)\<rparr>)"
  using assms by (simp add: CreateStudent_def Let_def)

lemma created_ids_append: "created_ids (xs @ ys) = created_ids xs @ created_ids ys"
  by (induction xs) (auto split: Body.splits)

lemma created_ids_Cons: "created_ids (w # ws) = created_ids [w] @ created_ids ws"
  using created_ids_append [of "[w]" ws] by simp

declare created_ids.simps(2) [simp del]

text \<open>
  Every request either creates (the response announces the old counter value, the
  counter is incremented with wrap-around) or announces nothing and leaves the counter
  alone.
\<close>

lemma ServeHTTP_counter:
  assumes "ServeHTTP st r = (st', w)"
  shows "(created_ids [w] = [nextID st] \<and> nextID st' = wrap64 (nextID st + 1))
         \<or> (created_ids [w] = [] \<and> nextID st' = nextID st)"
proof (cases r)
  case (POST_students decoded)
  with assms have c: "CreateStudent st decoded = (st', w)" by simp
  show ?thesis
  proof (cases "status w = StatusCreated")
    case True
    from CreateStudent_created [OF c True] show ?thesis
      by (auto simp: created_ids.simps)
  next
    case False
    from CreateStudent_not_created [OF c False] False show ?thesis
      by (simp add: created_ids.simps split: Body.splits)
  qed
qed (use assms in \<open>auto simp: GetAllStudents_def GetStudent_def UpdateStudent_def
       DeleteStudent_def GetStudentSummary_def http_Error_def Let_def created_ids.simps
       split: option.splits if_splits\<close>)

text \<open>A key of the store after a request was a key before it or is the id just created.\<close>

lemma ServeHTTP_keys:
  assumes "ServeHTTP st r = (st', w)" and "students st' i = Some x"
  shows "students st i \<noteq> None \<or> i \<in> set (created_ids [w])"
proof (cases r)
  case (POST_students decoded)
  with assms have c: "CreateStudent st decoded = (st', w)" by simp
  show ?thesis
  proof (cases "status w = StatusCreated")
    case True
    from CreateStudent_created [OF c True] assms(2) show ?thesis
      by (auto simp: created_ids.simps split: if_splits)
  next
    case False
    from CreateStudent_not_created [OF c False] assms(2) show ?thesis by simp
  qed
qed (use assms in \<open>auto simp: GetAllStudents_def GetStudent_def UpdateStudent_def
       DeleteStudent_def GetStudentSummary_def http_Error_def Let_def created_ids.simps
       split: option.splits if_splits\<close>)

lemma serve_keys:
  "students (fst (serve st rs)) i = Some x \<Longrightarrow>
     students st i \<noteq> None \<or> i \<in> set (created_ids (snd (serve st rs)))"
proof (induction rs arbitrary: st)
  case Nil
  then show ?case by simp
next
  case (Cons r rs)
  obtain st' w where step: "ServeHTTP st r = (st', w)" by (cases "ServeHTTP st r")
  obtain st'' ws where rest: "serve st' rs = (st'', ws)" by (cases "serve st' rs")
  from step rest have "snd (serve st (r # rs)) = w # ws" by simp
  then have run: "created_ids (snd (serve st (r # rs))) = created_ids [w] @ created_ids ws"
    by (simp only: created_ids_Cons [of w ws])
  from Cons.prems step rest have "students (fst (serve st' rs)) i = Some x" by simp
  from Cons.IH [OF this] rest
  have "students st' i \<noteq> None \<or> i \<in> set (created_ids ws)" by simp
  then show ?case
  proof
    assume "students st' i \<noteq> None"
    then obtain y where "students st' i = Some y" by blast
    from ServeHTTP_keys [OF step this] run show ?thesis by auto
  next
    assume "i \<in> set (created_ids ws)"
    with run show ?thesis by simp
  qed
qed

lemma serve_append:
  "serve st (xs @ ys) =
    (case serve st xs of (st1, ws1) \<Rightarrow> (case serve st1 ys of (st2, ws2) \<Rightarrow> (st2, ws1 @ ws2)))"
  by (induction xs arbitrary: st) (auto split: prod.splits)

lemma length_serve: "length (snd (serve st rs)) = length rs"
proof (induction rs arbitrary: st)
  case Nil
  show ?case by simp
next
  case (Cons r rs)
  obtain st' w where step: "ServeHTTP st r = (st', w)" by (cases "ServeHTTP st r")
  obtain st'' ws where rest: "serve st' rs = (st'', ws)" by (cases "serve st' rs")
  from Cons.IH [of st'] rest have "length ws = length rs" by simp
  with step rest show ?case by simp
qed

text \<open>The ids a run announces are the successive 64-bit values of the counter.\<close>

lemma created_ids_serve:
  assumes "wrap64 (nextID st) = nextID st"
  shows "created_ids (snd (serve st rs)) =
           map (\<lambda>k. wrap64 (nextID st + int k))
               [0..<length (created_ids (snd (serve st rs)))]"
  using assms
proof (induction rs arbitrary: st)
  case Nil
  show ?case by simp
next
  case (Cons r rs)
  obtain st' w where step: "ServeHTTP st r = (st', w)" by (cases "ServeHTTP st r")
  obtain st'' ws where rest: "serve st' rs = (st'', ws)" by (cases "serve st' rs")
  from step rest have "snd (serve st (r # rs)) = w # ws" by simp
  then have run: "created_ids (snd (serve st (r # rs))) = created_ids [w] @ created_ids ws"
    by (simp only: created_ids_Cons [of w ws])
  from rest have ws: "created_ids (snd (serve st' rs)) = created_ids ws" by simp
  from ServeHTTP_counter [OF step] show ?case
  proof
    assume a: "created_ids [w] = [] \<and> nextID st' = nextID st"
    with run have same: "created_ids (snd (serve st (r # rs))) = created_ids ws" by simp
    from a Cons.prems have "wrap64 (nextID st') = nextID st'" by simp
    from Cons.IH [OF this] a ws same show ?thesis by simp
  next
    assume a: "created_ids [w] = [nextID st] \<and> nextID st' = wrap64 (nextID st + 1)"
    with run have ids: "created_ids (snd (serve st (r # rs))) = nextID st # created_ids ws"
      by simp
    from a have "wrap64 (nextID st') = nextID st'" by (simp add: wrap64_idem)
    from Cons.IH [OF this] a ws
    have "created_ids ws =
            map (\<lambda>k. wrap64 (nextID st + int (Suc k))) [0..<length (created_ids ws)]"
      by (simp add: wrap64_add_left add.assoc)
    then have "nextID st # created_ids ws =
            map (\<lambda>k. wrap64 (nextID st + int k)) [0..<Suc (length (created_ids ws))]"
      using Cons.prems by (simp add: map_upt_Suc del: upt_Suc)
    with ids show ?thesis by simp
  qed
qed

lemma created_ids_distinct:
  assumes "wrap64 (nextID st) = nextID st"
    and "length (created_ids (snd (serve st rs))) \<le> 2 ^ 64"
  shows "distinct (created_ids (snd (serve st rs)))"
proof -
  let ?m = "length (created_ids (snd (serve st rs)))"
  have "inj_on (\<lambda>k. wrap64 (nextID st + int k)) {0..<?m}"
  proof (rule inj_onI)
    fix j k
    assume j: "j \<in> {0..<?m}" and k: "k \<in> {0..<?m}"
      and eq: "wrap64 (nextID st + int j) = wrap64 (nextID st + int k)"
    from j assms(2) have "j < 2 ^ 64" by simp
    then have j': "int j < 2 ^ 64" by (metis of_nat_less_iff of_nat_numeral of_nat_power)
    from k assms(2) have "k < 2 ^ 64" by simp
    then have k': "int k < 2 ^ 64" by (metis of_nat_less_iff of_nat_numeral of_nat_power)
    from j' k' have "\<bar>(nextID st + int j) - (nextID st + int k)\<bar> < 2 ^ 64" by simp
    from wrap64_eq_near [OF eq this] show "j = k" by simp
  qed
  then have "distinct (map (\<lambda>k. wrap64 (nextID st + int k)) [0..<?m])"
    by (simp add: distinct_map)
  with created_ids_serve [OF assms(1), of rs] show ?thesis by simp
qed

text \<open>
  While the counter does not pass the largest 64-bit integer, the ids announced by a run
  count up from the counter's value at its start.
\<close>

lemma created_ids_before_wrap:
  assumes "- (2 ^ 63) \<le> nextID st"
    and "nextID st + int (length (created_ids (snd (serve st rs)))) \<le> 2 ^ 63"
  shows "created_ids (snd (serve st rs)) =
           [nextID st .. nextID st + int (length (created_ids (snd (serve st rs)))) - 1]"
  using assms
proof (induction rs arbitrary: st)
  case Nil
  show ?case by simp
next
  case (Cons r rs)
  obtain st' w where step: "ServeHTTP st r = (st', w)" by (cases "ServeHTTP st r")
  obtain st'' ws where rest: "serve st' rs = (st'', ws)" by (cases "serve st' rs")
  define m where "m = int (length (created_ids ws))"
  from step rest have "snd (serve st (r # rs)) = w # ws" by simp
  then have run: "created_ids (snd (serve st (r # rs))) = created_ids [w] @ created_ids ws"
    by (simp only: created_ids_Cons [of w ws])
  from rest have ws: "created_ids (snd (serve st' rs)) = created_ids ws" by simp
  have m0: "0 \<le> m" by (simp add: m_def)
  from ServeHTTP_counter [OF step] show ?case
  proof
    assume a: "created_ids [w] = [] \<and> nextID st' = nextID st"
    with run have same: "created_ids (snd (serve st (r # rs))) = created_ids ws" by simp
    with Cons.prems a ws have "- (2 ^ 63) \<le> nextID st'"
      and "nextID st' + int (length (created_ids (snd (serve st' rs)))) \<le> 2 ^ 63"
      by simp_all
    from Cons.IH [OF this] a same ws show ?thesis by simp
  next
    assume a: "created_ids [w] = [nextID st] \<and> nextID st' = wrap64 (nextID st + 1)"
    with run have ids: "created_ids (snd (serve st (r # rs))) = nextID st # created_ids ws"
      by simp
    then have len: "int (length (created_ids (snd (serve st (r # rs))))) = 1 + m"
      by (simp add: m_def)
    with Cons.prems(2) have bound: "nextID st + 1 + m \<le> 2 ^ 63" by simp
    show ?thesis
    proof (cases "m = 0")
      case True
      then have "created_ids ws = []" by (simp add: m_def)
      with ids show ?thesis by simp
    next
      case False
      with m0 have "1 \<le> m" by simp
      with bound have room: "nextID st + 1 < 2 ^ 63" by simp
      from Cons.prems(1) have "- (2 ^ 63) \<le> nextID st + 1" by simp
      from wrap64_in_range [OF this room] a have succ: "nextID st' = nextID st + 1" by simp
      from Cons.prems(1) succ bound ws have "- (2 ^ 63) \<le> nextID st'"
        and "nextID st' + int (length (created_ids (snd (serve st' rs)))) \<le> 2 ^ 63"
        by (simp_all add: m_def)
      from Cons.IH [OF this] ws succ
      have ih: "created_ids ws = [nextID st + 1 .. nextID st + 1 + m - 1]"
        by (simp add: m_def)
      from m0 have "nextID st \<le> nextID st + (1 + m) - 1" by simp
      from upto_rec1 [OF this]
      have "[nextID st .. nextID st + (1 + m) - 1] =
              nextID st # [nextID st + 1 .. nextID st + 1 + m - 1]"
        by (simp add: add.assoc)
      with ih ids len show ?thesis by simp
    qed
  qed
qed

lemma fresh_created_ids:
  assumes "length (created_ids (snd (serve (NewStudentStore d) rs))) < 2 ^ 63"
  shows "created_ids (snd (serve (NewStudentStore d) rs)) =
     [1 .. int (length (created_ids (snd (serve (NewStudentStore d) rs))))]"
proof -
  let ?st = "NewStudentStore d"
  have start: "nextID ?st = 1" by (simp add: NewStudentStore_def)
  from assms have "int (length (created_ids (snd (serve ?st rs)))) < 2 ^ 63"
    by (metis of_nat_less_iff of_nat_numeral of_nat_power)
  with start have "- (2 ^ 63) \<le> nextID ?st"
    and "nextID ?st + int (length (created_ids (snd (serve ?st rs)))) \<le> 2 ^ 63"
    by simp_all
  from created_ids_before_wrap [OF this] start show ?thesis by simp
qed

lemma deleted_id_not_created_again:
  assumes few: "length (created_ids
             (snd (serve (NewStudentStore d) (pre @ DELETE_student (Some i) # post)))) \<le> 2 ^ 64"
    and deleted: "status (snd (serve (NewStudentStore d) (pre @ DELETE_student (Some i) # post))
             ! length pre) = StatusNoContent"
  shows "i \<notin> set (created_ids (drop (Suc (length pre))
           (snd (serve (NewStudentStore d) (pre @ DELETE_student (Some i) # post)))))"
proof -
  let ?run = "snd (serve (NewStudentStore d) (pre @ DELETE_student (Some i) # post))"
  obtain st1 ws1 where r1: "serve (NewStudentStore d) pre = (st1, ws1)"
    by (cases "serve (NewStudentStore d) pre")
  obtain st2 w where r2: "DeleteStudent st1 (Some i) = (st2, w)"
    by (cases "DeleteStudent st1 (Some i)")
  obtain st3 ws3 where r3: "serve st2 post = (st3, ws3)"
    by (cases "serve st2 post")
  from length_serve [of "NewStudentStore d" pre] r1 have len: "length ws1 = length pre" by simp
  from r1 r2 r3 have run: "?run = ws1 @ w # ws3"
    by (simp add: serve_append)
  from deleted run len have ok: "status w = StatusNoContent" by (simp add: nth_append)
  from r2 ok obtain x where present: "students st1 i = Some x"
    by (auto simp: DeleteStudent_def http_Error_def split: option.splits)
  from ok have none: "created_ids [w] = []"
    by (simp add: created_ids.simps split: Body.splits)
  from present r1 serve_keys [of "NewStudentStore d" pre i x]
  have before: "i \<in> set (created_ids ws1)" by (simp add: NewStudentStore_def)
  have "created_ids ?run = created_ids ws1 @ created_ids [w] @ created_ids ws3"
    by (simp only: run created_ids_append created_ids_Cons [of w ws3])
  with none have ids: "created_ids ?run = created_ids ws1 @ created_ids ws3" by simp
  have "wrap64 (nextID (NewStudentStore d)) = nextID (NewStudentStore d)"
    by (simp add: NewStudentStore_def wrap64_def)
  from created_ids_distinct [OF this few] have "distinct (created_ids ?run)" .
  with ids before have "i \<notin> set (created_ids ws3)" by auto
  with run len show ?thesis by simp
qed

text \<open>Valid Creates in a row announce the counter's successive 64-bit values.\<close>

lemma created_ids_replicate_POST:
  assumes "Validate s = []" and "wrap64 (nextID st) = nextID st"
  shows "created_ids (snd (serve st (replicate n (POST_students (Some s))))) =
           map (\<lambda>k. wrap64 (nextID st + int k)) [0..<n]"
  using assms(2)
proof (induction n arbitrary: st)
  case 0
  show ?case by simp
next
  case (Suc n)
  let ?st' = "st\<lparr>nextID := wrap64 (nextID st + 1),
                 students := (students st)(nextID st \<mapsto> s\<lparr>ID := nextID st\<rparr>)\<rparr>"
  let ?w = "\<lparr>status = StatusCreated, body = JSON_Student (s\<lparr>ID := nextID st\<rparr>)\<rparr>"
  let ?rest = "replicate n (POST_students (Some s))"
  from assms(1) have step: "ServeHTTP st (POST_students (Some s)) = (?st', ?w)"
    by (simp add: CreateStudent_valid)
  then have "snd (serve st (replicate (Suc n) (POST_students (Some s)))) = ?w # snd (serve ?st' ?rest)"
    by (simp split: prod.splits)
  then have "created_ids (snd (serve st (replicate (Suc n) (POST_students (Some s))))) =
      created_ids [?w] @ created_ids (snd (serve ?st' ?rest))"
    by (simp only: created_ids_Cons [of ?w "snd (serve ?st' ?rest)"])
  moreover have "created_ids [?w] = [nextID st]" by (simp add: created_ids.simps)
  moreover have "wrap64 (nextID ?st') = nextID ?st'"
    using wrap64_add_left [of "nextID st + 1" 0] by simp
  from Suc.IH [OF this]
  have "created_ids (snd (serve ?st' ?rest)) =
          map (\<lambda>k. wrap64 (nextID st + int (Suc k))) [0..<n]"
    by (simp add: wrap64_add_left add.assoc)
  ultimately show ?case using Suc.prems by (simp add: map_upt_Suc del: upt_Suc)
qed

lemma ids_not_increasing_after_wrap:
  assumes "Validate s = []" and "2 ^ 63 \<le> n"
  shows "\<not> sorted_wrt (<) (created_ids
           (snd (serve (NewStudentStore d) (replicate n (POST_students (Some s))))))"
proof
  let ?ids = "created_ids (snd (serve (NewStudentStore d) (replicate n (POST_students (Some s)))))"
  assume sorted: "sorted_wrt (<) ?ids"
  have "wrap64 (nextID (NewStudentStore d)) = nextID (NewStudentStore d)"
    by (simp add: NewStudentStore_def wrap64_def)
  from created_ids_replicate_POST [OF assms(1) this, of n]
  have ids: "?ids = map (\<lambda>k. wrap64 (1 + int k)) [0..<n]"
    by (simp add: NewStudentStore_def)
  from assms(2) have big: "9223372036854775807 < n" by simp
  with ids have len: "9223372036854775807 < length ?ids" by simp
  have "(9223372036854775806::nat) < 9223372036854775807" by simp
  from sorted_wrt_nth_less [OF sorted this len]
  have "?ids ! 9223372036854775806 < ?ids ! 9223372036854775807" .
  with big show False by (simp add: ids wrap64_def)
qed

lemma deleted_id_created_again_after_wrap:
  assumes "Validate s = []" and "2 ^ 64 \<le> n"
  shows "status (snd (serve (NewStudentStore d)
            (POST_students (Some s) # DELETE_student (Some 1)
               # replicate n (POST_students (Some s)))) ! 1) = StatusNoContent
         \<and> 1 \<in> set (created_ids (drop 2 (snd (serve (NewStudentStore d)
            (POST_students (Some s) # DELETE_student (Some 1)
               # replicate n (POST_students (Some s)))))))"
proof -
  let ?rest = "replicate n (POST_students (Some s))"
  let ?st2 = "\<lparr>students = (Map.empty(1 \<mapsto> s\<lparr>ID := 1\<rparr>))(1 := None), nextID = 2, db = d\<rparr>"
  let ?w1 = "\<lparr>status = StatusCreated, body = JSON_Student (s\<lparr>ID := 1\<rparr>)\<rparr>"
  let ?w2 = "\<lparr>status = StatusNoContent, body = NoBody\<rparr>"
  from assms(1) have run: "snd (serve (NewStudentStore d)
      (POST_students (Some s) # DELETE_student (Some 1) # ?rest)) = ?w1 # ?w2 # snd (serve ?st2 ?rest)"
    by (simp add: CreateStudent_valid DeleteStudent_def NewStudentStore_def wrap64_def
          split: prod.splits)
  have "wrap64 (nextID ?st2) = nextID ?st2" by (simp add: wrap64_def)
  from created_ids_replicate_POST [OF assms(1) this, of n]
  have ids: "created_ids (snd (serve ?st2 ?rest)) = map (\<lambda>k. wrap64 (2 + int k)) [0..<n]"
    by simp
  from assms(2) have "(18446744073709551615::nat) \<in> {0..<n}" by simp
  then have "wrap64 (2 + int 18446744073709551615) \<in> (\<lambda>k. wrap64 (2 + int k)) ` {0..<n}"
    by (rule imageI)
  moreover have "wrap64 (2 + int 18446744073709551615) = 1" by (simp add: wrap64_def)
  ultimately have "1 \<in> (\<lambda>k. wrap64 (2 + int k)) ` {0..<n}" by (simp only:)
  with ids have "1 \<in> set (created_ids (snd (serve ?st2 ?rest)))" by simp
  with run show ?thesis by simp
qed

section \<open>Invariants of the store and properties of the handlers\<close>

lemma ServeHTTP_invariant:
  assumes "ServeHTTP st r = (st', w)"
    and "\<forall>i s. students st i = Some s \<longrightarrow> ID s = i \<and> Validate s = []"
  shows "\<forall>i s. students st' i = Some s \<longrightarrow> ID s = i \<and> Validate s = []"
proof (cases r)
  case (POST_students decoded)
  with assms(1) have c: "CreateStudent st decoded = (st', w)" by simp
  show ?thesis
  proof (cases "status w = StatusCreated")
    case True
    from CreateStudent_created [OF c True] obtain s where
      valid: "Validate s = []" and
      st': "st' = st\<lparr>nextID := wrap64 (nextID st + 1),
                 students := (students st)(nextID st \<mapsto> s\<lparr>ID := nextID st\<rparr>)\<rparr>"
      by blast
    show ?thesis
    proof (intro allI impI)
      fix i x
      assume stored: "students st' i = Some x"
      show "ID x = i \<and> Validate x = []"
      proof (cases "i = nextID st")
        case True
        with st' stored valid show ?thesis by (auto simp: Validate_update_ID)
      next
        case False
        with st' stored have "students st i = Some x" by simp
        with assms(2) have "ID x = i \<and> Validate x = []" by blast
        with st' show ?thesis by simp
      qed
    qed
  next
    case False
    from CreateStudent_not_created [OF c False] assms(2) show ?thesis by simp
  qed
next
  case (PUT_student parsed decoded)
  with assms show ?thesis
    by (auto simp: UpdateStudent_def http_Error_def Let_def Validate_update_ID
             split: option.splits if_splits)
next
  case (DELETE_student parsed)
  with assms show ?thesis
    by (auto simp: DeleteStudent_def http_Error_def split: option.splits if_splits)
qed (use assms in \<open>auto simp: GetAllStudents_def GetStudent_def GetStudentSummary_def
       http_Error_def Let_def split: option.splits\<close>)

lemma serve_invariant:
  assumes "\<forall>i s. students st i = Some s \<longrightarrow> ID s = i \<and> Validate s = []"
  shows "\<forall>i s. students (fst (serve st rs)) i = Some s \<longrightarrow>
           ID s = i \<and> Validate s = []"
  using assms
proof (induction rs arbitrary: st)
  case Nil
  then show ?case by simp
next
  case (Cons r rs)
  obtain st' w where step: "ServeHTTP st r = (st', w)" by (cases "ServeHTTP st r")
  obtain st'' ws where rest: "serve st' rs = (st'', ws)" by (cases "serve st' rs")
  from ServeHTTP_invariant [OF step Cons.prems] have "\<forall>i s. students st' i = Some s \<longrightarrow>
    ID s = i \<and> Validate s = []" .
  from Cons.IH [OF this] rest step show ?case by simp
qed

lemma fresh_invariant:
  "students (fst (serve (NewStudentStore d) rs)) i = Some s \<Longrightarrow>
     ID s = i \<and> Validate s = []"
proof -
  have "\<forall>i s. students (NewStudentStore d) i = Some s \<longrightarrow>
          ID s = i \<and> Validate s = []"
    by (simp add: NewStudentStore_def)
  from serve_invariant [OF this, of rs] show
    "students (fst (serve (NewStudentStore d) rs)) i = Some s \<Longrightarrow>
     ID s = i \<and> Validate s = []"
    by blast
qed

text \<open>
  C6. In every store state reached from a fresh store by any sequence of requests, every
  stored student passes validation (non-empty name, age within 0 and 150, non-empty
  email): \<open>Validate\<close> returns the empty list on it.
\<close>

theorem stored_students_are_valid:
  "students (fst (serve (NewStudentStore d) rs)) i = Some s \<Longrightarrow> Validate s = []"
  by (drule fresh_invariant) simp

theorem stored_students_are_valid_witness:
  "students (fst (serve (NewStudentStore ())
      [POST_students (Some \<lparr>ID = 0, Name = ''Ann'', Age = 20, Email = ''a@b.com''\<rparr>),
       POST_students (Some \<lparr>ID = 0, Name = '''', Age = 200, Email = ''''\<rparr>),
       PUT_student (Some 1) (Some \<lparr>ID = 0, Name = ''X'', Age = 5, Email = ''x@x''\<rparr>)])) 1
     = Some \<lparr>ID = 1, Name = ''X'', Age = 5, Email = ''x@x''\<rparr>
   \<and> Validate \<lparr>ID = 1, Name = ''X'', Age = 5, Email = ''x@x''\<rparr> = []"
proof -
  have stored: "students (fst (serve (NewStudentStore ())
      [POST_students (Some \<lparr>ID = 0, Name = ''Ann'', Age = 20, Email = ''a@b.com''\<rparr>),
       POST_students (Some \<lparr>ID = 0, Name = '''', Age = 200, Email = ''''\<rparr>),
       PUT_student (Some 1) (Some \<lparr>ID = 0, Name = ''X'', Age = 5, Email = ''x@x''\<rparr>)])) 1
     = Some \<lparr>ID = 1, Name = ''X'', Age = 5, Email = ''x@x''\<rparr>"
    by (simp add: handler_defs)
  from stored_students_are_valid [OF stored] stored show ?thesis by simp
qed

text \<open>
  C9. In every store state reached from a fresh store by any sequence of requests, every
  map entry's key equals the \<open>ID\<close> field of the student stored under it.
\<close>

theorem stored_student_ID_is_key:
  "students (fst (serve (NewStudentStore d) rs)) i = Some s \<Longrightarrow> ID s = i"
  by (drule fresh_invariant) simp


theorem stored_student_ID_is_key_witness:
  "students (fst (serve (NewStudentStore ())
      [POST_students (Some \<lparr>ID = 77, Name = ''Ann'', Age = 20, Email = ''a@b.com''\<rparr>),
       POST_students (Some \<lparr>ID = 77, Name = ''Bob'', Age = 30, Email = ''b@c.org''\<rparr>),
       PUT_student (Some 1) (Some \<lparr>ID = 99, Name = ''X'', Age = 5, Email = ''x@x''\<rparr>)])) 2
     = Some \<lparr>ID = 2, Name = ''Bob'', Age = 30, Email = ''b@c.org''\<rparr>
   \<and> ID \<lparr>ID = 2, Name = ''Bob'', Age = 30, Email = ''b@c.org''\<rparr> = 2"
proof -
  have stored: "students (fst (serve (NewStudentStore ())
      [POST_students (Some \<lparr>ID = 77, Name = ''Ann'', Age = 20, Email = ''a@b.com''\<rparr>),
       POST_students (Some \<lparr>ID = 77, Name = ''Bob'', Age = 30, Email = ''b@c.org''\<rparr>),
       PUT_student (Some 1) (Some \<lparr>ID = 99, Name = ''X'', Age = 5, Email = ''x@x''\<rparr>)])) 2
     = Some \<lparr>ID = 2, Name = ''Bob'', Age = 30, Email = ''b@c.org''\<rparr>"
    by (simp add: handler_defs)
  from stored_student_ID_is_key [OF stored] stored show ?thesis by simp
qed

text \<open>
  C5. Whatever the handler and the request, a response with a failure status (400 or 404)
  leaves the store (map, counter and database handle) as it was; every response is either
  a success status (200, 201, 204) or comes with an unchanged store.
\<close>

theorem failure_leaves_store_unchanged:
  assumes "ServeHTTP st r = (st', w)"
  shows "(status w = StatusBadRequest \<or> status w = StatusNotFound \<longrightarrow> st' = st)
         \<and> (status w \<in> {StatusOK, StatusCreated, StatusNoContent} \<or> st' = st)"
proof (cases r)
  case (POST_students decoded)
  with assms show ?thesis
    by (auto simp: CreateStudent_def http_Error_def Let_def split: option.splits if_splits)
next
  case (GET_students order)
  with assms show ?thesis by (auto simp: GetAllStudents_def)
next
  case (GET_student parsed)
  with assms show ?thesis
    by (auto simp: GetStudent_def http_Error_def split: option.splits)
next
  case (PUT_student parsed decoded)
  with assms show ?thesis
    by (auto simp: UpdateStudent_def http_Error_def Let_def split: option.splits if_splits)
next
  case (DELETE_student parsed)
  with assms show ?thesis
    by (auto simp: DeleteStudent_def http_Error_def split: option.splits)
next
  case (GET_student_summary parsed)
  with assms show ?thesis
    by (auto simp: GetStudentSummary_def http_Error_def Let_def split: option.splits)
qed

theorem failure_leaves_store_unchanged_witness:
  "status (snd (ServeHTTP \<lparr>students = [1 \<mapsto> \<lparr>ID = 1, Name = ''Ann'', Age = 20, Email = ''a@b.com''\<rparr>],
                          nextID = 2, db = ()\<rparr>
                (PUT_student (Some 1) (Some \<lparr>ID = 0, Name = ''Ann'', Age = 151, Email = ''a@b.com''\<rparr>))))
     = StatusBadRequest
   \<and> fst (ServeHTTP \<lparr>students = [1 \<mapsto> \<lparr>ID = 1, Name = ''Ann'', Age = 20, Email = ''a@b.com''\<rparr>],
                     nextID = 2, db = ()\<rparr>
                (PUT_student (Some 1) (Some \<lparr>ID = 0, Name = ''Ann'', Age = 151, Email = ''a@b.com''\<rparr>)))
     = \<lparr>students = [1 \<mapsto> \<lparr>ID = 1, Name = ''Ann'', Age = 20, Email = ''a@b.com''\<rparr>],
        nextID = 2, db = ()\<rparr>"
proof -
  let ?st = "\<lparr>students = [1 \<mapsto> \<lparr>ID = 1, Name = ''Ann'', Age = 20, Email = ''a@b.com''\<rparr>],
              nextID = 2, db = ()\<rparr>"
  let ?r = "PUT_student (Some 1) (Some \<lparr>ID = 0, Name = ''Ann'', Age = 151, Email = ''a@b.com''\<rparr>)"
  have run: "ServeHTTP ?st ?r = (fst (ServeHTTP ?st ?r), snd (ServeHTTP ?st ?r))" by simp
  have bad: "status (snd (ServeHTTP ?st ?r)) = StatusBadRequest" by (simp add: handler_defs)
  from failure_leaves_store_unchanged [OF run] bad show ?thesis by simp
qed

text \<open>
  C3. For every store, every id \<open>i\<close> present in it and every valid student \<open>s\<close>, the
  update of \<open>i\<close> with \<open>s\<close> answers 200 and stores exactly \<open>s\<close> with its id set to \<open>i\<close>,
  whatever record was stored before (no field of it survives); the following Get of \<open>i\<close>
  returns exactly that record.
\<close>

theorem Update_replaces_whole_record:
  assumes "students st i = Some old" and "Validate s = []"
  shows "\<exists>st'. UpdateStudent st (Some i) (Some s) =
                 (st', \<lparr>status = StatusOK, body = JSON_Student (s\<lparr>ID := i\<rparr>)\<rparr>)
              \<and> students st' i = Some (s\<lparr>ID := i\<rparr>)
              \<and> GetStudent st' (Some i) =
                 (st', \<lparr>status = StatusOK, body = JSON_Student (s\<lparr>ID := i\<rparr>)\<rparr>)"
  using assms by (simp add: UpdateStudent_def GetStudent_def Let_def)

theorem Update_replaces_whole_record_witness:
  "\<exists>st'. UpdateStudent \<lparr>students = [1 \<mapsto> \<lparr>ID = 1, Name = ''Ann'', Age = 20, Email = ''a@b.com''\<rparr>],
                         nextID = 2, db = ()\<rparr>
             (Some 1) (Some \<lparr>ID = 0, Name = ''X'', Age = 5, Email = ''x@x''\<rparr>) =
           (st', \<lparr>status = StatusOK,
                  body = JSON_Student \<lparr>ID = 1, Name = ''X'', Age = 5, Email = ''x@x''\<rparr>\<rparr>)
         \<and> students st' 1 = Some \<lparr>ID = 1, Name = ''X'', Age = 5, Email = ''x@x''\<rparr>
         \<and> GetStudent st' (Some 1) =
           (st', \<lparr>status = StatusOK,
                  body = JSON_Student \<lparr>ID = 1, Name = ''X'', Age = 5, Email = ''x@x''\<rparr>\<rparr>)"
  using Update_replaces_whole_record
    [of "\<lparr>students = [1 \<mapsto> \<lparr>ID = 1, Name = ''Ann'', Age = 20, Email = ''a@b.com''\<rparr>],
          nextID = 2, db = ()\<rparr>"
        1 "\<lparr>ID = 1, Name = ''Ann'', Age = 20, Email = ''a@b.com''\<rparr>"
        "\<lparr>ID = 0, Name = ''X'', Age = 5, Email = ''x@x''\<rparr>"]
  by (simp add: Validate_def)

text \<open>
  C4. For every store and every id absent from it, Get, Update (with a valid body) and
  Delete answer 404 "Student not found" and leave the store alone; nothing is assumed of
  the other entries. After a Delete of an id, in any store, Get of that id answers 404.
\<close>

theorem absent_id_is_not_found:
  "(students st i = None \<longrightarrow>
      GetStudent st (Some i) = (st, \<lparr>status = StatusNotFound, body = PlainText ''Student not found''\<rparr>)
      \<and> (Validate s = [] \<longrightarrow>
           UpdateStudent st (Some i) (Some s) =
             (st, \<lparr>status = StatusNotFound, body = PlainText ''Student not found''\<rparr>))
      \<and> DeleteStudent st (Some i) =
             (st, \<lparr>status = StatusNotFound, body = PlainText ''Student not found''\<rparr>))
   \<and> snd (GetStudent (fst (DeleteStudent st0 (Some j))) (Some j)) =
        \<lparr>status = StatusNotFound, body = PlainText ''Student not found''\<rparr>"
  by (auto simp: GetStudent_def UpdateStudent_def DeleteStudent_def http_Error_def Let_def
           split: option.splits)

theorem absent_id_is_not_found_witness:
  "GetStudent \<lparr>students = [1 \<mapsto> \<lparr>ID = 1, Name = ''Ann'', Age = 20, Email = ''a@b.com''\<rparr>],
                nextID = 2, db = ()\<rparr> (Some 2)
     = (\<lparr>students = [1 \<mapsto> \<lparr>ID = 1, Name = ''Ann'', Age = 20, Email = ''a@b.com''\<rparr>],
          nextID = 2, db = ()\<rparr>,
        \<lparr>status = StatusNotFound, body = PlainText ''Student not found''\<rparr>)
   \<and> UpdateStudent \<lparr>students = [1 \<mapsto> \<lparr>ID = 1, Name = ''Ann'', Age = 20, Email = ''a@b.com''\<rparr>],
                nextID = 2, db = ()\<rparr> (Some 2)
        (Some \<lparr>ID = 0, Name = ''X'', Age = 5, Email = ''x@x''\<rparr>)
     = (\<lparr>students = [1 \<mapsto> \<lparr>ID = 1, Name = ''Ann'', Age = 20, Email = ''a@b.com''\<rparr>],
          nextID = 2, db = ()\<rparr>,
        \<lparr>status = StatusNotFound, body = PlainText ''Student not found''\<rparr>)
   \<and> DeleteStudent \<lparr>students = [1 \<mapsto> \<lparr>ID = 1, Name = ''Ann'', Age = 20, Email = ''a@b.com''\<rparr>],
                nextID = 2, db = ()\<rparr> (Some 2)
     = (\<lparr>students = [1 \<mapsto> \<lparr>ID = 1, Name = ''Ann'', Age = 20, Email = ''a@b.com''\<rparr>],
          nextID = 2, db = ()\<rparr>,
        \<lparr>status = StatusNotFound, body = PlainText ''Student not found''\<rparr>)
   \<and> snd (GetStudent (fst (DeleteStudent
          \<lparr>students = [1 \<mapsto> \<lparr>ID = 1, Name = ''Ann'', Age = 20, Email = ''a@b.com''\<rparr>],
           nextID = 2, db = ()\<rparr> (Some 1))) (Some 1))
     = \<lparr>status = StatusNotFound, body = PlainText ''Student not found''\<rparr>"
  using absent_id_is_not_found
    [of "\<lparr>students = [1 \<mapsto> \<lparr>ID = 1, Name = ''Ann'', Age = 20, Email = ''a@b.com''\<rparr>],
          nextID = 2, db = ()\<rparr>"
        2 "\<lparr>ID = 0, Name = ''X'', Age = 5, Email = ''x@x''\<rparr>"
        "\<lparr>students = [1 \<mapsto> \<lparr>ID = 1, Name = ''Ann'', Age = 20, Email = ''a@b.com''\<rparr>],
          nextID = 2, db = ()\<rparr>" 1]
  by (simp add: Validate_def)

text \<open>
  C7. For every stored student with id \<open>i\<close>, the summary handler answers 200 with the
  body \<open>{"summary": "Student <name> is <age> years old with email <email>."}\<close>, where
  \<open><age>\<close> is the decimal numeral of the student's age.
\<close>

theorem summary_of_stored_student:
  assumes "students st i = Some s"
  shows "\<exists>a. spec_is_decimal a (Age s) \<and>
    GetStudentSummary st (Some i) =
      (st, \<lparr>status = StatusOK,
            body = JSON_Map [(''summary'',
              ''Student '' @ Name s @ '' is '' @ a @
              '' years old with email '' @ Email s @ ''.'')]\<rparr>)"
proof (intro exI conjI)
  show "spec_is_decimal (FormatInt (Age s)) (Age s)" by (rule FormatInt_is_decimal)
  from assms show "GetStudentSummary st (Some i) =
      (st, \<lparr>status = StatusOK,
            body = JSON_Map [(''summary'',
              ''Student '' @ Name s @ '' is '' @ FormatInt (Age s) @
              '' years old with email '' @ Email s @ ''.'')]\<rparr>)"
    by (simp add: GetStudentSummary_def printArg_def)
qed

theorem summary_of_stored_student_witness:
  "snd (serve (NewStudentStore ())
     [POST_students (Some \<lparr>ID = 0, Name = ''Ann'', Age = 20, Email = ''a@b.com''\<rparr>),
      GET_student_summary (Some 1)])
   = [\<lparr>status = StatusCreated,
       body = JSON_Student \<lparr>ID = 1, Name = ''Ann'', Age = 20, Email = ''a@b.com''\<rparr>\<rparr>,
      \<lparr>status = StatusOK,
       body = JSON_Map [(''summary'', ''Student Ann is 20 years old with email a@b.com.'')]\<rparr>]
   \<and> spec_is_decimal ''20'' 20
   \<and> GetStudentSummary
        \<lparr>students = [7 \<mapsto> \<lparr>ID = 7, Name = ''Zed'', Age = 105, Email = ''z@y.x''\<rparr>],
         nextID = 8, db = ()\<rparr> (Some 7)
     = (\<lparr>students = [7 \<mapsto> \<lparr>ID = 7, Name = ''Zed'', Age = 105, Email = ''z@y.x''\<rparr>],
         nextID = 8, db = ()\<rparr>,
        \<lparr>status = StatusOK,
         body = JSON_Map [(''summary'', ''Student Zed is 105 years old with email z@y.x.'')]\<rparr>)"
proof -
  let ?ann = "\<lparr>ID = 1, Name = ''Ann'', Age = 20, Email = ''a@b.com''\<rparr>"
  let ?st = "\<lparr>students = [1 \<mapsto> ?ann], nextID = 2, db = ()\<rparr>"
  let ?zed = "\<lparr>ID = 7, Name = ''Zed'', Age = 105, Email = ''z@y.x''\<rparr>"
  let ?st7 = "\<lparr>students = [7 \<mapsto> ?zed], nextID = 8, db = ()\<rparr>"
  have created: "CreateStudent (NewStudentStore ())
      (Some \<lparr>ID = 0, Name = ''Ann'', Age = 20, Email = ''a@b.com''\<rparr>)
      = (?st, \<lparr>status = StatusCreated, body = JSON_Student ?ann\<rparr>)"
    by (simp add: handler_defs)
  have stored: "students ?st 1 = Some ?ann" by simp
  from summary_of_stored_student [OF stored] obtain a where
    dec: "spec_is_decimal a 20" and
    sum: "GetStudentSummary ?st (Some 1) =
      (?st, \<lparr>status = StatusOK,
             body = JSON_Map [(''summary'',
               ''Student '' @ ''Ann'' @ '' is '' @ a @
               '' years old with email '' @ ''a@b.com'' @ ''.'')]\<rparr>)"
    by auto
  from dec have a: "a = ''20''" by (simp add: spec_is_decimal_iff format_defs)
  have stored7: "students ?st7 7 = Some ?zed" by simp
  from summary_of_stored_student [OF stored7] obtain b where
    dec7: "spec_is_decimal b 105" and
    sum7: "GetStudentSummary ?st7 (Some 7) =
      (?st7, \<lparr>status = StatusOK,
             body = JSON_Map [(''summary'',
               ''Student '' @ ''Zed'' @ '' is '' @ b @
               '' years old with email '' @ ''z@y.x'' @ ''.'')]\<rparr>)"
    by auto
  from dec7 have b: "b = ''105''" by (simp add: spec_is_decimal_iff format_defs)
  from created sum dec a sum7 b show ?thesis by simp
qed

text \<open>
  C10. A successful Update or Delete of id \<open>i\<close> leaves every map entry with another key
  unchanged, and Update leaves the counter unchanged; the reading handlers (GetAll, Get,
  Summary) return the store they were given.
\<close>

theorem frame_of_Update_Delete_and_reads:
  "(UpdateStudent st (Some i) decoded = (st', w) \<and> status w = StatusOK \<longrightarrow>
      (\<forall>j. j \<noteq> i \<longrightarrow> students st' j = students st j) \<and> nextID st' = nextID st)
   \<and> (DeleteStudent st (Some i) = (st', w) \<and> status w = StatusNoContent \<longrightarrow>
      (\<forall>j. j \<noteq> i \<longrightarrow> students st' j = students st j))
   \<and> fst (GetAllStudents st order) = st
   \<and> fst (GetStudent st parsed) = st
   \<and> fst (GetStudentSummary st parsed) = st"
  by (auto simp: UpdateStudent_def DeleteStudent_def GetAllStudents_def GetStudent_def
        GetStudentSummary_def http_Error_def Let_def split: option.splits if_splits)


theorem frame_of_Update_Delete_and_reads_witness:
  "students (fst (UpdateStudent
       \<lparr>students = [1 \<mapsto> \<lparr>ID = 1, Name = ''Ann'', Age = 20, Email = ''a@b.com''\<rparr>,
                    2 \<mapsto> \<lparr>ID = 2, Name = ''Bob'', Age = 30, Email = ''b@c.org''\<rparr>],
        nextID = 3, db = ()\<rparr>
       (Some 1) (Some \<lparr>ID = 0, Name = ''X'', Age = 5, Email = ''x@x''\<rparr>))) 2
     = Some \<lparr>ID = 2, Name = ''Bob'', Age = 30, Email = ''b@c.org''\<rparr>
   \<and> nextID (fst (UpdateStudent
       \<lparr>students = [1 \<mapsto> \<lparr>ID = 1, Name = ''Ann'', Age = 20, Email = ''a@b.com''\<rparr>,
                    2 \<mapsto> \<lparr>ID = 2, Name = ''Bob'', Age = 30, Email = ''b@c.org''\<rparr>],
        nextID = 3, db = ()\<rparr>
       (Some 1) (Some \<lparr>ID = 0, Name = ''X'', Age = 5, Email = ''x@x''\<rparr>))) = 3
   \<and> students (fst (DeleteStudent
       \<lparr>students = [1 \<mapsto> \<lparr>ID = 1, Name = ''Ann'', Age = 20, Email = ''a@b.com''\<rparr>,
                    2 \<mapsto> \<lparr>ID = 2, Name = ''Bob'', Age = 30, Email = ''b@c.org''\<rparr>],
        nextID = 3, db = ()\<rparr> (Some 1))) 2
     = Some \<lparr>ID = 2, Name = ''Bob'', Age = 30, Email = ''b@c.org''\<rparr>
   \<and> fst (GetAllStudents
       \<lparr>students = [1 \<mapsto> \<lparr>ID = 1, Name = ''Ann'', Age = 20, Email = ''a@b.com''\<rparr>,
                    2 \<mapsto> \<lparr>ID = 2, Name = ''Bob'', Age = 30, Email = ''b@c.org''\<rparr>],
        nextID = 3, db = ()\<rparr> [2, 1])
     = \<lparr>students = [1 \<mapsto> \<lparr>ID = 1, Name = ''Ann'', Age = 20, Email = ''a@b.com''\<rparr>,
                    2 \<mapsto> \<lparr>ID = 2, Name = ''Bob'', Age = 30, Email = ''b@c.org''\<rparr>],
        nextID = 3, db = ()\<rparr>"
proof -
  let ?st = "\<lparr>students = [1 \<mapsto> \<lparr>ID = 1, Name = ''Ann'', Age = 20, Email = ''a@b.com''\<rparr>,
                          2 \<mapsto> \<lparr>ID = 2, Name = ''Bob'', Age = 30, Email = ''b@c.org''\<rparr>],
              nextID = 3, db = ()\<rparr>"
  let ?x = "\<lparr>ID = 0, Name = ''X'', Age = 5, Email = ''x@x''\<rparr>"
  let ?u = "UpdateStudent ?st (Some 1) (Some ?x)"
  let ?d = "DeleteStudent ?st (Some 1)"
  have run_u: "?u = (fst ?u, snd ?u)" by simp
  have ok_u: "status (snd ?u) = StatusOK" by (simp add: handler_defs)
  have run_d: "?d = (fst ?d, snd ?d)" by simp
  have ok_d: "status (snd ?d) = StatusNoContent" by (simp add: handler_defs)
  have other: "(2::int) \<noteq> 1" by simp
  from frame_of_Update_Delete_and_reads
         [of ?st 1 "Some ?x" "fst ?u" "snd ?u" "[2, 1]" "Some 1"] run_u ok_u
  have upd: "(\<forall>j. j \<noteq> 1 \<longrightarrow> students (fst ?u) j = students ?st j) \<and> nextID (fst ?u) = nextID ?st"
    and reads: "fst (GetAllStudents ?st [2, 1]) = ?st"
    by blast+
  from frame_of_Update_Delete_and_reads
         [of ?st 1 "Some ?x" "fst ?d" "snd ?d" "[2, 1]" "Some 1"] run_d ok_d
  have del: "\<forall>j. j \<noteq> 1 \<longrightarrow> students (fst ?d) j = students ?st j"
    by blast
  from upd other have "students (fst ?u) 2 = students ?st 2" and "nextID (fst ?u) = nextID ?st"
    by blast+
  moreover from del other have "students (fst ?d) 2 = students ?st 2" by blast
  ultimately show ?thesis using reads by simp
qed

text \<open>
  C2, as the code has it. A successful Create (201) stores the student under the current
  counter value, whatever id the body carried, and increments the counter as a 64-bit
  integer: by one below the largest value, and from the largest value to the smallest.
  From a fresh store, the ids announced by the 201 responses of a run in which fewer than
  \<open>2 ^ 63\<close> Creates succeed are 1, 2, 3, ... in creation order, strictly increasing; and
  in a run in which at most \<open>2 ^ 64\<close> Creates succeed, an id whose Delete succeeded (204)
  is announced by no Create later in the run.
\<close>

theorem Create_ids_count_up_before_wrap:
  "(CreateStudent st decoded = (st', w) \<and> status w = StatusCreated \<longrightarrow>
      (\<exists>s. decoded = Some s \<and> body w = JSON_Student (s\<lparr>ID := nextID st\<rparr>)
           \<and> students st' (nextID st) = Some (s\<lparr>ID := nextID st\<rparr>)
           \<and> nextID st' = wrap64 (nextID st + 1)
           \<and> (- (2 ^ 63) \<le> nextID st \<and> nextID st < 2 ^ 63 - 1 \<longrightarrow>
                nextID st' = nextID st + 1)
           \<and> (nextID st = 2 ^ 63 - 1 \<longrightarrow> nextID st' = - (2 ^ 63))))
   \<and> (length (created_ids (snd (serve (NewStudentStore d) rs))) < 2 ^ 63 \<longrightarrow>
        created_ids (snd (serve (NewStudentStore d) rs)) =
          [1 .. int (length (created_ids (snd (serve (NewStudentStore d) rs))))]
        \<and> sorted_wrt (<) (created_ids (snd (serve (NewStudentStore d) rs))))
   \<and> (length (created_ids
          (snd (serve (NewStudentStore d) (pre @ DELETE_student (Some i) # post)))) \<le> 2 ^ 64
        \<and> status (snd (serve (NewStudentStore d) (pre @ DELETE_student (Some i) # post))
                ! length pre) = StatusNoContent \<longrightarrow>
        i \<notin> set (created_ids (drop (Suc (length pre))
               (snd (serve (NewStudentStore d) (pre @ DELETE_student (Some i) # post))))))"
proof (intro conjI impI)
  assume "CreateStudent st decoded = (st', w) \<and> status w = StatusCreated"
  then have c: "CreateStudent st decoded = (st', w)" and ok: "status w = StatusCreated"
    by simp_all
  from CreateStudent_created [OF c ok] obtain s where s: "decoded = Some s"
    and w: "w = \<lparr>status = StatusCreated, body = JSON_Student (s\<lparr>ID := nextID st\<rparr>)\<rparr>"
    and st': "st' = st\<lparr>nextID := wrap64 (nextID st + 1),
                      students := (students st)(nextID st \<mapsto> s\<lparr>ID := nextID st\<rparr>)\<rparr>"
    by blast
  have "- (2 ^ 63) \<le> nextID st \<and> nextID st < 2 ^ 63 - 1 \<longrightarrow>
          wrap64 (nextID st + 1) = nextID st + 1"
    by (simp add: wrap64_in_range)
  moreover have "nextID st = 2 ^ 63 - 1 \<longrightarrow> wrap64 (nextID st + 1) = - (2 ^ 63)"
    by (simp add: wrap64_def)
  ultimately have counter: "(- (2 ^ 63) \<le> nextID st \<and> nextID st < 2 ^ 63 - 1 \<longrightarrow>
          wrap64 (nextID st + 1) = nextID st + 1)
        \<and> (nextID st = 2 ^ 63 - 1 \<longrightarrow> wrap64 (nextID st + 1) = - (2 ^ 63))"
    by (rule conjI)
  from counter s w st'
  show "\<exists>s. decoded = Some s \<and> body w = JSON_Student (s\<lparr>ID := nextID st\<rparr>)
           \<and> students st' (nextID st) = Some (s\<lparr>ID := nextID st\<rparr>)
           \<and> nextID st' = wrap64 (nextID st + 1)
           \<and> (- (2 ^ 63) \<le> nextID st \<and> nextID st < 2 ^ 63 - 1 \<longrightarrow>
                nextID st' = nextID st + 1)
           \<and> (nextID st = 2 ^ 63 - 1 \<longrightarrow> nextID st' = - (2 ^ 63))"
    by simp
next
  assume few: "length (created_ids (snd (serve (NewStudentStore d) rs))) < 2 ^ 63"
  then show ids: "created_ids (snd (serve (NewStudentStore d) rs)) =
       [1 .. int (length (created_ids (snd (serve (NewStudentStore d) rs))))]"
    by (rule fresh_created_ids)
  have "sorted_wrt (<) [1 .. int (length (created_ids (snd (serve (NewStudentStore d) rs))))]"
    by simp
  with ids show "sorted_wrt (<) (created_ids (snd (serve (NewStudentStore d) rs)))"
    by simp
next
  assume "length (created_ids
          (snd (serve (NewStudentStore d) (pre @ DELETE_student (Some i) # post)))) \<le> 2 ^ 64
        \<and> status (snd (serve (NewStudentStore d) (pre @ DELETE_student (Some i) # post))
                ! length pre) = StatusNoContent"
  then show "i \<notin> set (created_ids (drop (Suc (length pre))
               (snd (serve (NewStudentStore d) (pre @ DELETE_student (Some i) # post)))))"
    by (intro deleted_id_not_created_again) simp_all
qed

theorem Create_ids_count_up_before_wrap_witness:
  "created_ids (snd (serve (NewStudentStore ())
      [POST_students (Some \<lparr>ID = 77, Name = ''Ann'', Age = 20, Email = ''a@b.com''\<rparr>),
       POST_students (Some \<lparr>ID = 77, Name = '''', Age = 20, Email = ''a@b.com''\<rparr>),
       POST_students (Some \<lparr>ID = 77, Name = ''Bob'', Age = 30, Email = ''b@c.org''\<rparr>)])) = [1, 2]
   \<and> status (snd (serve (NewStudentStore ())
      ([POST_students (Some \<lparr>ID = 77, Name = ''Ann'', Age = 20, Email = ''a@b.com''\<rparr>),
        POST_students (Some \<lparr>ID = 77, Name = ''Bob'', Age = 30, Email = ''b@c.org''\<rparr>)]
       @ DELETE_student (Some 2)
       # [POST_students (Some \<lparr>ID = 2, Name = ''Cy'', Age = 40, Email = ''c@d.net''\<rparr>)]))
      ! 2) = StatusNoContent
   \<and> 2 \<notin> set (created_ids (drop 3 (snd (serve (NewStudentStore ())
      ([POST_students (Some \<lparr>ID = 77, Name = ''Ann'', Age = 20, Email = ''a@b.com''\<rparr>),
        POST_students (Some \<lparr>ID = 77, Name = ''Bob'', Age = 30, Email = ''b@c.org''\<rparr>)]
       @ DELETE_student (Some 2)
       # [POST_students (Some \<lparr>ID = 2, Name = ''Cy'', Age = 40, Email = ''c@d.net''\<rparr>)])))))"
proof -
  let ?ann = "\<lparr>ID = 77, Name = ''Ann'', Age = 20, Email = ''a@b.com''\<rparr>"
  let ?bob = "\<lparr>ID = 77, Name = ''Bob'', Age = 30, Email = ''b@c.org''\<rparr>"
  let ?rs = "[POST_students (Some ?ann),
              POST_students (Some \<lparr>ID = 77, Name = '''', Age = 20, Email = ''a@b.com''\<rparr>),
              POST_students (Some ?bob)]"
  let ?pre = "[POST_students (Some ?ann), POST_students (Some ?bob)]"
  let ?post = "[POST_students (Some \<lparr>ID = 2, Name = ''Cy'', Age = 40, Email = ''c@d.net''\<rparr>)]"
  let ?run = "snd (serve (NewStudentStore ()) (?pre @ DELETE_student (Some 2) # ?post))"
  have n: "length (created_ids (snd (serve (NewStudentStore ()) ?rs))) = 2"
    by (simp add: handler_defs)
  have few: "length (created_ids (snd (serve (NewStudentStore ()) ?rs))) < 2 ^ 63"
    by (simp only: n) simp
  have m: "length (created_ids ?run) = 3"
    by (simp add: handler_defs)
  have few': "length (created_ids ?run) \<le> 2 ^ 64"
    by (simp only: m) simp
  have deleted: "status (?run ! length ?pre) = StatusNoContent"
    by (simp add: handler_defs)
  from Create_ids_count_up_before_wrap
         [of "NewStudentStore ()" "Some ?ann" "fst (CreateStudent (NewStudentStore ()) (Some ?ann))"
             "snd (CreateStudent (NewStudentStore ()) (Some ?ann))" "()" ?rs ?pre 2 ?post]
  have ids: "length (created_ids (snd (serve (NewStudentStore ()) ?rs))) < 2 ^ 63 \<longrightarrow>
               created_ids (snd (serve (NewStudentStore ()) ?rs)) =
                 [1 .. int (length (created_ids (snd (serve (NewStudentStore ()) ?rs))))]
               \<and> sorted_wrt (<) (created_ids (snd (serve (NewStudentStore ()) ?rs)))"
    and never: "length (created_ids ?run) \<le> 2 ^ 64
               \<and> status (?run ! length ?pre) = StatusNoContent \<longrightarrow>
               2 \<notin> set (created_ids (drop (Suc (length ?pre)) ?run))"
    by blast+
  from ids few have "created_ids (snd (serve (NewStudentStore ()) ?rs)) =
                 [1 .. int (length (created_ids (snd (serve (NewStudentStore ()) ?rs))))]"
    by blast
  with n have "created_ids (snd (serve (NewStudentStore ()) ?rs)) = [1, 2]"
    by (simp add: upto_rec1)
  moreover from never few' deleted
  have "2 \<notin> set (created_ids (drop (Suc (length ?pre)) ?run))"
    by blast
  ultimately show ?thesis using deleted by (simp add: numeral_2_eq_2 numeral_3_eq_3)
qed

text \<open>
  Without the bounds the statement fails on the code. A Create at the largest 64-bit counter
  value leaves the smallest one as counter. So, from a fresh store, the ids announced by
  \<open>2 ^ 63\<close> valid Creates in a row are not increasing (the last one follows
  9223372036854775807 with -9223372036854775808), and after a Create, the Delete of id 1
  and \<open>2 ^ 64\<close> further valid Creates, id 1 has been announced again.
\<close>

theorem Create_ids_wrap_counterexample:
  "nextID (fst (CreateStudent \<lparr>students = Map.empty, nextID = 9223372036854775807, db = ()\<rparr>
      (Some \<lparr>ID = 0, Name = ''Ann'', Age = 20, Email = ''a@b.com''\<rparr>))) = - 9223372036854775808
   \<and> \<not> sorted_wrt (<) (created_ids (snd (serve (NewStudentStore ())
        (replicate (2 ^ 63)
           (POST_students (Some \<lparr>ID = 0, Name = ''Ann'', Age = 20, Email = ''a@b.com''\<rparr>))))))
   \<and> status (snd (serve (NewStudentStore ())
        (POST_students (Some \<lparr>ID = 0, Name = ''Ann'', Age = 20, Email = ''a@b.com''\<rparr>)
         # DELETE_student (Some 1)
         # replicate (2 ^ 64)
             (POST_students (Some \<lparr>ID = 0, Name = ''Ann'', Age = 20, Email = ''a@b.com''\<rparr>))))
       ! 1) = StatusNoContent
   \<and> 1 \<in> set (created_ids (drop 2 (snd (serve (NewStudentStore ())
        (POST_students (Some \<lparr>ID = 0, Name = ''Ann'', Age = 20, Email = ''a@b.com''\<rparr>)
         # DELETE_student (Some 1)
         # replicate (2 ^ 64)
             (POST_students (Some \<lparr>ID = 0, Name = ''Ann'', Age = 20, Email = ''a@b.com''\<rparr>)))))))"
proof -
  let ?ann = "\<lparr>ID = 0, Name = ''Ann'', Age = 20, Email = ''a@b.com''\<rparr>"
  have valid: "Validate ?ann = []" by (simp add: Validate_def)
  have step: "nextID (fst (CreateStudent
      \<lparr>students = Map.empty, nextID = 9223372036854775807, db = ()\<rparr> (Some ?ann)))
      = - 9223372036854775808"
    by (simp add: CreateStudent_valid [OF valid] wrap64_def)
  have many: "(2::nat) ^ 63 \<le> 2 ^ 63" and more: "(2::nat) ^ 64 \<le> 2 ^ 64"
    by (rule order_refl)+
  note up = ids_not_increasing_after_wrap [OF valid many, of "()"]
  note again = deleted_id_created_again_after_wrap [OF valid more, of "()"]
  from step up again show ?thesis by (intro conjI) (erule conjunct1 conjunct2 | assumption)+
qed

text \<open>
  C8, as the code has it. The prompt is "Generate a brief summary of this student:",
  then the three fields on lines of their own ("Name: ", "Age: " with the decimal numeral
  of the age, "Email: "), separated by newlines. Once the request with the members
  \<open>model = "llama2"\<close> and \<open>prompt\<close> is marshalled, the client issues exactly one POST to
  the base URL followed by \<open>/api/generate\<close>, with content type \<open>application/json\<close> and
  the marshalled request as body; an error of the POST or of the decoding of the reply is
  returned to the caller, and otherwise the value decoded for the key \<open>response\<close> is.
\<close>

theorem GenerateStudentSummary_posts_prompt:
  "\<exists>a. spec_is_decimal a (Age s) \<and>
    (json_Marshal net
      [(''model'', ''llama2''),
       (''prompt'', ''Generate a brief summary of this student:\<newline>Name: '' @ Name s @
                ''\<newline>Age: '' @ a @ ''\<newline>Email: '' @ Email s)] = Inr jb \<longrightarrow>
      fst (GenerateStudentSummary net c s) =
        [\<lparr>url = baseURL c @ ''/api/generate'', contentType = ''application/json'', payload = jb\<rparr>]
      \<and> (http_Post net (baseURL c @ ''/api/generate'') ''application/json'' jb = Inl e \<longrightarrow>
           snd (GenerateStudentSummary net c s) = Inl e)
      \<and> (http_Post net (baseURL c @ ''/api/generate'') ''application/json'' jb = Inr resp
           \<and> json_Decode net resp [''response''] = Inl e \<longrightarrow>
           snd (GenerateStudentSummary net c s) = Inl e)
      \<and> (http_Post net (baseURL c @ ''/api/generate'') ''application/json'' jb = Inr resp
           \<and> json_Decode net resp [''response''] = Inr vals \<longrightarrow>
           snd (GenerateStudentSummary net c s) = Inr (vals ''response'')))"
proof (intro exI conjI)
  show "spec_is_decimal (FormatInt (Age s)) (Age s)" by (rule FormatInt_is_decimal)
  show "json_Marshal net
      [(''model'', ''llama2''),
       (''prompt'', ''Generate a brief summary of this student:\<newline>Name: '' @ Name s @
                ''\<newline>Age: '' @ FormatInt (Age s) @ ''\<newline>Email: '' @ Email s)] = Inr jb \<longrightarrow>
      fst (GenerateStudentSummary net c s) =
        [\<lparr>url = baseURL c @ ''/api/generate'', contentType = ''application/json'', payload = jb\<rparr>]
      \<and> (http_Post net (baseURL c @ ''/api/generate'') ''application/json'' jb = Inl e \<longrightarrow>
           snd (GenerateStudentSummary net c s) = Inl e)
      \<and> (http_Post net (baseURL c @ ''/api/generate'') ''application/json'' jb = Inr resp
           \<and> json_Decode net resp [''response''] = Inl e \<longrightarrow>
           snd (GenerateStudentSummary net c s) = Inl e)
      \<and> (http_Post net (baseURL c @ ''/api/generate'') ''application/json'' jb = Inr resp
           \<and> json_Decode net resp [''response''] = Inr vals \<longrightarrow>
           snd (GenerateStudentSummary net c s) = Inr (vals ''response''))"
    by (auto simp: GenerateStudentSummary_def OllamaRequest_members_def OllamaResponse_keys_def
          OllamaResponse_of_members_def printArg_def Let_def split: sum.splits)
qed

theorem GenerateStudentSummary_posts_prompt_witness:
  "GenerateStudentSummary
       \<lparr>json_Marshal = (\<lambda>ms. Inr (concat (map (\<lambda>(k, v). k @ ''='' @ v @ '';'') ms))),
        http_Post = (\<lambda>u t b. if u = ''http://localhost:11434/api/generate''
                              then Inr ''Ann is a student.'' else Inl ''no route''),
        json_Decode = (\<lambda>b ks. Inr (\<lambda>k. if k = ''response'' then b else ''''))\<rparr>
       (NewOllamaClient ''http://localhost:11434'')
       \<lparr>ID = 1, Name = ''Ann'', Age = 20, Email = ''a@b.com''\<rparr>
     = ([\<lparr>url = ''http://localhost:11434/api/generate'', contentType = ''application/json'',
          payload = ''model=llama2;prompt=Generate a brief summary of this student:\<newline>Name: Ann\<newline>Age: 20\<newline>Email: a@b.com;''\<rparr>],
        Inr ''Ann is a student.'')"
proof -
  let ?net = "\<lparr>json_Marshal = (\<lambda>ms. Inr (concat (map (\<lambda>(k, v). k @ ''='' @ v @ '';'') ms))),
        http_Post = (\<lambda>u t b. if u = ''http://localhost:11434/api/generate''
                              then Inr ''Ann is a student.'' else Inl ''no route''),
        json_Decode = (\<lambda>b ks. Inr (\<lambda>k. if k = ''response'' then b else ''''))\<rparr>"
  let ?c = "NewOllamaClient ''http://localhost:11434''"
  let ?s = "\<lparr>ID = 1, Name = ''Ann'', Age = 20, Email = ''a@b.com''\<rparr>"
  let ?jb = "''model=llama2;prompt=Generate a brief summary of this student:\<newline>Name: Ann\<newline>Age: 20\<newline>Email: a@b.com;''"
  let ?vals = "\<lambda>k. if k = ''response'' then ''Ann is a student.'' else ''''"
  from GenerateStudentSummary_posts_prompt
         [of ?s ?net ?jb ?c "''unused''" "''Ann is a student.''" ?vals]
  obtain a where dec: "spec_is_decimal a (Age ?s)"
    and rest: "json_Marshal ?net
      [(''model'', ''llama2''),
       (''prompt'', ''Generate a brief summary of this student:\<newline>Name: '' @ Name ?s @
                ''\<newline>Age: '' @ a @ ''\<newline>Email: '' @ Email ?s)] = Inr ?jb \<longrightarrow>
      fst (GenerateStudentSummary ?net ?c ?s) =
        [\<lparr>url = baseURL ?c @ ''/api/generate'', contentType = ''application/json'',
          payload = ?jb\<rparr>]
      \<and> (http_Post ?net (baseURL ?c @ ''/api/generate'') ''application/json'' ?jb
             = Inr ''Ann is a student.''
           \<and> json_Decode ?net ''Ann is a student.'' [''response''] = Inr ?vals \<longrightarrow>
           snd (GenerateStudentSummary ?net ?c ?s) = Inr (?vals ''response''))"
    by blast
  from dec have a: "a = ''20''" by (simp add: spec_is_decimal_iff format_defs)
  have marshal: "json_Marshal ?net
      [(''model'', ''llama2''),
       (''prompt'', ''Generate a brief summary of this student:\<newline>Name: '' @ Name ?s @
                ''\<newline>Age: '' @ a @ ''\<newline>Email: '' @ Email ?s)] = Inr ?jb"
    by (simp add: a)
  have post: "http_Post ?net (baseURL ?c @ ''/api/generate'') ''application/json'' ?jb
      = Inr ''Ann is a student.''"
    by (simp add: NewOllamaClient_def)
  have decode: "json_Decode ?net ''Ann is a student.'' [''response''] = Inr ?vals"
    by simp
  from rest marshal post decode
  have "fst (GenerateStudentSummary ?net ?c ?s) =
          [\<lparr>url = baseURL ?c @ ''/api/generate'', contentType = ''application/json'',
            payload = ?jb\<rparr>]"
    and "snd (GenerateStudentSummary ?net ?c ?s) = Inr (?vals ''response'')"
    by blast+
  then show ?thesis by (simp add: NewOllamaClient_def prod_eq_iff)
qed

text \<open>
  The prompt the specification quotes for C8 (one line, the fields separated by ", ") is
  not the prompt the client sends: with a marshaller that passes the prompt member
  through, the body posted for Ann, 20, a@b.com has the three fields on lines of their
  own.
\<close>

theorem GenerateStudentSummary_prompt_counterexample:
  "fst (GenerateStudentSummary
       (\<lparr>json_Marshal = (\<lambda>ms. Inr (concat (map snd (filter (\<lambda>m. fst m = ''prompt'') ms)))),
         http_Post = (\<lambda>u t b. Inr b),
         json_Decode = (\<lambda>b ks. Inr (\<lambda>k. b))\<rparr> :: (string, string) Net)
       (NewOllamaClient ''http://localhost:11434'')
       \<lparr>ID = 1, Name = ''Ann'', Age = 20, Email = ''a@b.com''\<rparr>)
     = [\<lparr>url = ''http://localhost:11434/api/generate'', contentType = ''application/json'',
         payload = ''Generate a brief summary of this student:\<newline>Name: Ann\<newline>Age: 20\<newline>Email: a@b.com''\<rparr>]
   \<and> spec_is_decimal ''20'' 20
   \<and> spec_prompt \<lparr>ID = 1, Name = ''Ann'', Age = 20, Email = ''a@b.com''\<rparr> ''20''
     = ''Generate a brief summary of this student: Name: Ann, Age: 20, Email: a@b.com''
   \<and> fst (GenerateStudentSummary
       (\<lparr>json_Marshal = (\<lambda>ms. Inr (concat (map snd (filter (\<lambda>m. fst m = ''prompt'') ms)))),
         http_Post = (\<lambda>u t b. Inr b),
         json_Decode = (\<lambda>b ks. Inr (\<lambda>k. b))\<rparr> :: (string, string) Net)
       (NewOllamaClient ''http://localhost:11434'')
       \<lparr>ID = 1, Name = ''Ann'', Age = 20, Email = ''a@b.com''\<rparr>)
     \<noteq> [\<lparr>url = ''http://localhost:11434/api/generate'', contentType = ''application/json'',
         payload = spec_prompt \<lparr>ID = 1, Name = ''Ann'', Age = 20, Email = ''a@b.com''\<rparr> ''20''\<rparr>]"
  by (simp add: GenerateStudentSummary_def NewOllamaClient_def spec_prompt_def format_defs
        OllamaRequest_members_def OllamaResponse_keys_def OllamaResponse_of_members_def
        spec_is_decimal_iff Let_def)

end
